theory Spec2Isabelle
  imports Main "HOL-Library.Word" "HOL-Library.AList"
begin

unbundle bit_operations_syntax

section \<open>Values, errors and typed arrays\<close>

text \<open>
  A \<^verbatim>\<open>Uint32Array\<close> element is a 32-bit word. A \<^verbatim>\<open>Float32Array\<close> element is
  kept as its IEEE-754 binary32 bit pattern: the batcher only allocates (all bits zero, the
  float \<^verbatim>\<open>+0\<close>), copies and uploads floats, it never computes with them.
\<close>

type_synonym u32 = "32 word"
type_synonym f32 = "32 word"

text \<open>
  The exceptions the modelled code can raise: the \<^verbatim>\<open>RangeError\<close> of
  \<^verbatim>\<open>TypedArray.prototype.set\<close>, and the \<^verbatim>\<open>Error\<close> that \<^verbatim>\<open>getBuffer\<close> and
  \<^verbatim>\<open>getTexture\<close> throw for a label with no entry (with its message).
\<close>

datatype error = RangeError | ResourceNotFound string

text \<open>\<^verbatim>\<open>target.set(source, offset)\<close>: raises when the source does not fit.\<close>

definition typed_set :: "'a list \<Rightarrow> 'a list \<Rightarrow> nat \<Rightarrow> error + 'a list" where
  "typed_set target source offset =
     (if offset + length source > length target then Inl RangeError
      else Inr (take offset target @ source @ drop (offset + length source) target))"

text \<open>\<^verbatim>\<open>byteLength\<close> of a typed array of 4-byte elements.\<close>

definition byteLength :: "32 word list \<Rightarrow> nat" where
  "byteLength a = 4 * length a"

section \<open>The resource registry (class WebGPU)\<close>

record GPUBufferDescriptor =
  bd_label :: "string option"
  bd_size :: nat
  bd_usage :: nat

record GPUBuffer =
  buf_label :: string
  buf_size :: nat
  buf_usage :: nat
  buf_destroyed :: bool
  buf_data :: "32 word list"

record GPUTextureDescriptor =
  td_label :: "string option"
  td_width :: nat
  td_height :: nat
  td_format :: string
  td_usage :: nat
  td_sampleCount :: nat

record GPUTexture =
  tex_label :: string
  tex_width :: nat
  tex_height :: nat
  tex_format :: string
  tex_usage :: nat
  tex_sampleCount :: nat
  tex_destroyed :: bool

text \<open>
  The device owns the GPU objects; a handle is the position of the object in the device's
  list, so two objects never share a handle. \<^verbatim>\<open>sharedBuffers\<close> and
  \<^verbatim>\<open>sharedTextures\<close> are the two JavaScript \<^verbatim>\<open>Map\<close>s of the class, kept as
  association lists in insertion order.
\<close>

record WebGPU =
  buffer_objects :: "GPUBuffer list"
  texture_objects :: "GPUTexture list"
  sharedBuffers :: "(string \<times> nat) list"
  sharedTextures :: "(string \<times> nat) list"

text \<open>The state after \<^verbatim>\<open>init()\<close>: two empty maps, no GPU object yet.\<close>

definition init :: WebGPU where
  "init = \<lparr>buffer_objects = [], texture_objects = [], sharedBuffers = [], sharedTextures = []\<rparr>"

text \<open>\<^verbatim>\<open>device.createBuffer(descriptor)\<close>: a fresh, live buffer object.\<close>

definition device_createBuffer :: "GPUBufferDescriptor \<Rightarrow> WebGPU \<Rightarrow> nat \<times> WebGPU" where
  "device_createBuffer descriptor w =
     (length (buffer_objects w),
      w\<lparr>buffer_objects := buffer_objects w @
          [\<lparr>buf_label = (case bd_label descriptor of None \<Rightarrow> [] | Some l \<Rightarrow> l),
            buf_size = bd_size descriptor, buf_usage = bd_usage descriptor,
            buf_destroyed = False, buf_data = []\<rparr>]\<rparr>)"

text \<open>\<^verbatim>\<open>device.createTexture(descriptor)\<close>: a fresh, live texture object.\<close>

definition device_createTexture :: "GPUTextureDescriptor \<Rightarrow> WebGPU \<Rightarrow> nat \<times> WebGPU" where
  "device_createTexture descriptor w =
     (length (texture_objects w),
      w\<lparr>texture_objects := texture_objects w @
          [\<lparr>tex_label = (case td_label descriptor of None \<Rightarrow> [] | Some l \<Rightarrow> l),
            tex_width = td_width descriptor, tex_height = td_height descriptor,
            tex_format = td_format descriptor, tex_usage = td_usage descriptor,
            tex_sampleCount = td_sampleCount descriptor, tex_destroyed = False\<rparr>]\<rparr>)"

text \<open>\<^verbatim>\<open>buffer.destroy()\<close> and \<^verbatim>\<open>texture.destroy()\<close> on a handle.\<close>

definition buffer_destroy :: "nat \<Rightarrow> WebGPU \<Rightarrow> WebGPU" where
  "buffer_destroy h w =
     w\<lparr>buffer_objects := (buffer_objects w)[h := (buffer_objects w ! h)\<lparr>buf_destroyed := True\<rparr>]\<rparr>"

definition texture_destroy :: "nat \<Rightarrow> WebGPU \<Rightarrow> WebGPU" where
  "texture_destroy h w =
     w\<lparr>texture_objects := (texture_objects w)[h := (texture_objects w ! h)\<lparr>tex_destroyed := True\<rparr>]\<rparr>"

text \<open>
  \<^verbatim>\<open>createBuffer(descriptor, label)\<close>. The assignment \<^verbatim>\<open>descriptor.label = label\<close>
  changes the caller's object, so the descriptor as the caller sees it afterwards is
  returned next to the handle.
\<close>

definition createBuffer ::
  "GPUBufferDescriptor \<Rightarrow> string \<Rightarrow> WebGPU \<Rightarrow> (nat \<times> GPUBufferDescriptor) \<times> WebGPU" where
  "createBuffer descriptor label w =
     (let descriptor' = descriptor\<lparr>bd_label := Some label\<rparr>;
          (buffer, w1) = device_createBuffer descriptor' w;
          w2 = (case map_of (sharedBuffers w1) label of
                  None \<Rightarrow> w1
                | Some old \<Rightarrow> buffer_destroy old w1);
          w3 = w2\<lparr>sharedBuffers := AList.update label buffer (sharedBuffers w2)\<rparr>
      in ((buffer, descriptor'), w3))"

text \<open>
  \<^verbatim>\<open>destroyBuffer(label)\<close>. Its first statement is
  \<^verbatim>\<open>this.sharedBuffers.get(label)?.destroy;\<close>: the method is read and not called, so
  the statement has no effect and only the \<^verbatim>\<open>delete\<close> remains.
\<close>

definition destroyBuffer :: "string \<Rightarrow> WebGPU \<Rightarrow> WebGPU" where
  "destroyBuffer label w = w\<lparr>sharedBuffers := AList.delete label (sharedBuffers w)\<rparr>"

definition getBuffer :: "string \<Rightarrow> WebGPU \<Rightarrow> error + nat" where
  "getBuffer label w =
     (case map_of (sharedBuffers w) label of
        Some buffer \<Rightarrow> Inr buffer
      | None \<Rightarrow> Inl (ResourceNotFound (''There is no buffer with the label: '' @ label)))"

definition createTexture ::
  "GPUTextureDescriptor \<Rightarrow> string \<Rightarrow> WebGPU \<Rightarrow> (nat \<times> GPUTextureDescriptor) \<times> WebGPU" where
  "createTexture descriptor label w =
     (let descriptor' = descriptor\<lparr>td_label := Some label\<rparr>;
          (texture, w1) = device_createTexture descriptor' w;
          w2 = (case map_of (sharedTextures w1) label of
                  None \<Rightarrow> w1
                | Some old \<Rightarrow> texture_destroy old w1);
          w3 = w2\<lparr>sharedTextures := AList.update label texture (sharedTextures w2)\<rparr>
      in ((texture, descriptor'), w3))"

definition destroyTexture :: "string \<Rightarrow> WebGPU \<Rightarrow> WebGPU" where
  "destroyTexture label w =
     (let w1 = (case map_of (sharedTextures w) label of
                  None \<Rightarrow> w
                | Some t \<Rightarrow> texture_destroy t w)
      in w1\<lparr>sharedTextures := AList.delete label (sharedTextures w1)\<rparr>)"

definition getTexture :: "string \<Rightarrow> WebGPU \<Rightarrow> error + nat" where
  "getTexture label w =
     (case map_of (sharedTextures w) label of
        Some texture \<Rightarrow> Inr texture
      | None \<Rightarrow> Inl (ResourceNotFound (''There is no texture with the label: '' @ label)))"

text \<open>
  \<^verbatim>\<open>device.queue.writeBuffer(buffer, 0, data)\<close>: the words of \<open>data\<close> replace the
  start of the buffer's contents.
\<close>

definition writeBuffer :: "nat \<Rightarrow> 32 word list \<Rightarrow> WebGPU \<Rightarrow> WebGPU" where
  "writeBuffer h data w =
     w\<lparr>buffer_objects := (buffer_objects w)
         [h := (buffer_objects w ! h)
                 \<lparr>buf_data := data @ drop (length data) (buf_data (buffer_objects w ! h))\<rparr>]\<rparr>"

text \<open>The usage flags of the WebGPU API that the code combines with \<^verbatim>\<open>|\<close>.\<close>

definition COPY_DST :: nat where "COPY_DST = 8"
definition INDEX :: nat where "INDEX = 16"
definition VERTEX :: nat where "VERTEX = 32"
definition STORAGE :: nat where "STORAGE = 128"
definition RENDER_ATTACHMENT :: nat where "RENDER_ATTACHMENT = 16"

section \<open>Scene, meshes and entities\<close>

text \<open>
  A \<^verbatim>\<open>TriangleMesh\<close> object: \<open>mesh_ref\<close> is the identity of the object (the key of
  the batcher's \<^verbatim>\<open>Map\<close> is the object itself, compared by reference), the two buffers
  are its \<^verbatim>\<open>Float32Array\<close> of interleaved vertices and its index array.
\<close>

record TriangleMesh =
  mesh_ref :: nat
  vertexBuffer :: "f32 list"
  elementBuffer :: "u32 list"

text \<open>
  Modelled from the spec: the classes \<^verbatim>\<open>Entity\<close> and \<^verbatim>\<open>MeshInstance\<close> and the
  method \<^verbatim>\<open>Scene.getId\<close> are not among the sources. An entity is either a mesh
  instance, which exposes its mesh, its world transform (\<^verbatim>\<open>getWorldTransform()\<close>) and
  its scene-unique id (\<^verbatim>\<open>scene.getId(object)\<close>, a non-negative integer), or some other
  entity, of which only the id is known.
\<close>

datatype Entity =
    MeshInstance nat TriangleMesh "f32 list"
  | OtherEntity nat

text \<open>\<^verbatim>\<open>Scene.entities\<close> is a \<^verbatim>\<open>Map\<close> from names to entities, in insertion order.\<close>

record Scene =
  entities :: "(string \<times> Entity) list"

record Viewport =
  scene :: Scene
  width :: nat
  height :: nat

section \<open>The geometry batcher (TrianglePass.createMeshBuffer)\<close>

record InstanceGroup =
  count :: nat
  ids :: "nat list"

text \<open>\<^verbatim>\<open>instances.get(mesh)\<close> on the \<^verbatim>\<open>Map\<close> keyed by mesh objects.\<close>

fun instances_get ::
  "(TriangleMesh \<times> InstanceGroup) list \<Rightarrow> TriangleMesh \<Rightarrow> InstanceGroup option" where
  "instances_get [] mesh = None"
| "instances_get ((k, g) # rest) mesh =
     (if mesh_ref k = mesh_ref mesh then Some g else instances_get rest mesh)"

text \<open>
  \<^verbatim>\<open>count.count++\<close> on the group object found by \<^verbatim>\<open>instances.get(mesh)\<close>: the entry
  of the map is changed in place, and only its counter.
\<close>

fun instances_increment ::
  "(TriangleMesh \<times> InstanceGroup) list \<Rightarrow> TriangleMesh \<Rightarrow> (TriangleMesh \<times> InstanceGroup) list" where
  "instances_increment [] mesh = []"
| "instances_increment ((k, g) # rest) mesh =
     (if mesh_ref k = mesh_ref mesh then (k, g\<lparr>count := count g + 1\<rparr>) # rest
      else (k, g) # instances_increment rest mesh)"

text \<open>The variables of the first loop (lines 112 to 137).\<close>

record Scan =
  vertexSize :: nat
  indexSize :: nat
  transformArray :: "f32 list"
  instances :: "(TriangleMesh \<times> InstanceGroup) list"

text \<open>The body of \<^verbatim>\<open>scene.entities.forEach\<close>.\<close>

fun scan_entity :: "Entity \<Rightarrow> Scan \<Rightarrow> error + Scan" where
  "scan_entity (OtherEntity i) s = Inr s"
| "scan_entity (MeshInstance i mesh worldTransform) s =
     (case typed_set (transformArray s) worldTransform i of
        Inl e \<Rightarrow> Inl e
      | Inr ta \<Rightarrow>
          (case instances_get (instances s) mesh of
             None \<Rightarrow>
               Inr (s\<lparr>transformArray := ta,
                       vertexSize := vertexSize s + length (vertexBuffer mesh),
                       indexSize := indexSize s + length (elementBuffer mesh),
                       instances := instances s @ [(mesh, \<lparr>count = 1, ids = [i]\<rparr>)]\<rparr>)
           | Some g \<Rightarrow>
               Inr (s\<lparr>transformArray := ta,
                       instances := instances_increment (instances s) mesh\<rparr>)))"

fun scan_entities :: "(string \<times> Entity) list \<Rightarrow> Scan \<Rightarrow> error + Scan" where
  "scan_entities [] s = Inr s"
| "scan_entities ((name, object) # rest) s =
     (case scan_entity object s of
        Inl e \<Rightarrow> Inl e
      | Inr s' \<Rightarrow> scan_entities rest s')"

text \<open>The variables of the second loop (lines 140 to 166).\<close>

record Fill =
  vertexArray :: "f32 list"
  indexArray :: "u32 list"
  idArray :: "u32 list"
  drawParameters :: "u32 list"
  vertexOffset :: nat
  indexOffset :: nat
  objectOffset :: nat

text \<open>
  The body of \<^verbatim>\<open>instances.forEach\<close>. The numbers stored into the two
  \<^verbatim>\<open>Uint32Array\<close>s are reduced modulo \<open>2 ^ 32\<close>. The call
  \<^verbatim>\<open>drawParameters.set([...])\<close> has no offset argument, so the offset is 0.
\<close>

fun fill_group :: "TriangleMesh \<times> InstanceGroup \<Rightarrow> Fill \<Rightarrow> error + Fill" where
  "fill_group (mesh, value) f =
     (case typed_set (vertexArray f) (vertexBuffer mesh) (vertexOffset f) of
        Inl e \<Rightarrow> Inl e
      | Inr va \<Rightarrow>
     (case typed_set (indexArray f) (elementBuffer mesh) (indexOffset f) of
        Inl e \<Rightarrow> Inl e
      | Inr ia \<Rightarrow>
     (case typed_set (idArray f) (map of_nat (ids value)) (objectOffset f) of
        Inl e \<Rightarrow> Inl e
      | Inr ida \<Rightarrow>
     (case typed_set (drawParameters f)
             [of_nat (length (vertexBuffer mesh)),
              of_nat (count value),
              of_nat (indexOffset f),
              0,
              of_nat (objectOffset f)] 0 of
        Inl e \<Rightarrow> Inl e
      | Inr dp \<Rightarrow>
          Inr (f\<lparr>vertexArray := va, indexArray := ia, idArray := ida, drawParameters := dp,
                  vertexOffset := vertexOffset f + length (vertexBuffer mesh),
                  indexOffset := indexOffset f + length (elementBuffer mesh),
                  objectOffset := objectOffset f + count value\<rparr>)))))"

fun fill_groups :: "(TriangleMesh \<times> InstanceGroup) list \<Rightarrow> Fill \<Rightarrow> error + Fill" where
  "fill_groups [] f = Inr f"
| "fill_groups (entry # rest) f =
     (case fill_group entry f of
        Inl e \<Rightarrow> Inl e
      | Inr f' \<Rightarrow> fill_groups rest f')"

text \<open>
  Lines 109 to 166 of \<^verbatim>\<open>createMeshBuffer\<close>: the five arrays computed from the scene,
  returned as the final variables of the two loops.
\<close>

definition build_arrays :: "Scene \<Rightarrow> error + (Scan \<times> Fill)" where
  "build_arrays sc =
     (case scan_entities (entities sc)
             \<lparr>vertexSize = 0, indexSize = 0,
              transformArray = replicate (length (entities sc) * 16) 0,
              instances = []\<rparr> of
        Inl e \<Rightarrow> Inl e
      | Inr s \<Rightarrow>
          (case fill_groups (instances s)
                  \<lparr>vertexArray = replicate (vertexSize s) 0,
                   indexArray = replicate (indexSize s) 0,
                   idArray = replicate (length (entities sc)) 0,
                   drawParameters = replicate (length (instances s) * 5) 0,
                   vertexOffset = 0, indexOffset = 0, objectOffset = 0\<rparr> of
             Inl e \<Rightarrow> Inl e
           | Inr f \<Rightarrow> Inr (s, f)))"

text \<open>The field of the pass that the render step reads.\<close>

record TrianglePass =
  this_drawParameters :: "u32 list"

text \<open>
  \<^verbatim>\<open>createMeshBuffer(viewport)\<close>. The class \<^verbatim>\<open>Renderer\<close> is not among the sources;
  its \<^verbatim>\<open>createBuffer\<close>, \<^verbatim>\<open>getBuffer\<close> and \<^verbatim>\<open>getTexture\<close> are the operations of
  the registry above. The constant \<^verbatim>\<open>WebGPU.minBuffersize\<close> is not among the sources
  either and is the parameter \<open>minBuffersize\<close>.
\<close>

definition createMeshBuffer ::
  "nat \<Rightarrow> Viewport \<Rightarrow> TrianglePass \<times> WebGPU \<Rightarrow> error + (TrianglePass \<times> WebGPU)" where
  "createMeshBuffer minBuffersize viewport st =
     (case build_arrays (scene viewport) of
        Inl e \<Rightarrow> Inl e
      | Inr (s, f) \<Rightarrow>
          (let (pass, w) = st;
               ((vertexBuffer, d1), w) =
                  createBuffer \<lparr>bd_label = None,
                                bd_size = max (byteLength (vertexArray f)) minBuffersize,
                                bd_usage = COPY_DST OR VERTEX\<rparr> ''vertex'' w;
               ((indexBuffer, d2), w) =
                  createBuffer \<lparr>bd_label = None,
                                bd_size = max (byteLength (indexArray f)) minBuffersize,
                                bd_usage = COPY_DST OR INDEX\<rparr> ''index'' w;
               ((transformBuffer, d3), w) =
                  createBuffer \<lparr>bd_label = None,
                                bd_size = max (byteLength (transformArray s)) minBuffersize,
                                bd_usage = COPY_DST OR STORAGE\<rparr> ''transform'' w;
               ((objectIndexBuffer, d4), w) =
                  createBuffer \<lparr>bd_label = None,
                                bd_size = max (byteLength (idArray f)) minBuffersize,
                                bd_usage = COPY_DST OR STORAGE\<rparr> ''object-index'' w;
               w = writeBuffer vertexBuffer (vertexArray f) w;
               w = writeBuffer indexBuffer (indexArray f) w;
               w = writeBuffer transformBuffer (drawParameters f) w;
               w = writeBuffer objectIndexBuffer (idArray f) w
           in Inr (pass\<lparr>this_drawParameters := drawParameters f\<rparr>, w)))"

section \<open>The render step (TrianglePass.render)\<close>

text \<open>Reading a typed array at an index: \<^verbatim>\<open>undefined\<close> (\<open>None\<close>) out of range.\<close>

definition at :: "'a list \<Rightarrow> nat \<Rightarrow> 'a option" where
  "at a i = (if i < length a then Some (a ! i) else None)"

text \<open>One call of \<^verbatim>\<open>renderPass.drawIndexed\<close> with its five arguments.\<close>

record DrawIndexed =
  indexCount :: "u32 option"
  instanceCount :: "u32 option"
  firstIndex :: "u32 option"
  baseVertex :: "u32 option"
  firstInstance :: "u32 option"

text \<open>The loop of lines 367 to 376, from index \<open>i\<close> on.\<close>

function draw_loop :: "u32 list \<Rightarrow> nat \<Rightarrow> DrawIndexed list" where
  "draw_loop dp i =
     (if i < length dp
      then \<lparr>indexCount = at dp i, instanceCount = at dp (i + 1), firstIndex = at dp (i + 2),
            baseVertex = at dp (i + 3), firstInstance = at dp (i + 4)\<rparr> # draw_loop dp (i + 5)
      else [])"
  by pat_completeness auto
termination
  by (relation "measure (\<lambda>(dp, i). length dp - i)") auto

text \<open>Sequencing of steps that may raise.\<close>

definition and_then :: "error + 'a \<Rightarrow> ('a \<Rightarrow> error + 'b) \<Rightarrow> error + 'b" where
  "and_then r k = (case r of Inl e \<Rightarrow> Inl e | Inr x \<Rightarrow> k x)"

text \<open>
  The descriptor of a multisampled attachment (lines 222 to 244): viewport-sized, with the
  pass's \<^verbatim>\<open>multisampleCount\<close> of 4.
\<close>

definition multisample_descriptor :: "Viewport \<Rightarrow> string \<Rightarrow> string \<Rightarrow> GPUTextureDescriptor" where
  "multisample_descriptor viewport format label =
     \<lparr>td_label = Some label, td_width = width viewport, td_height = height viewport,
      td_format = format, td_usage = RENDER_ATTACHMENT, td_sampleCount = 4\<rparr>"

text \<open>
  \<^verbatim>\<open>render(viewport)\<close>: the result is the new state of the pass and of the registry and
  the list of draw calls issued. Bind groups, pipeline, shader module and command encoder do
  not touch the registry and are left out; the three multisampled textures are created on
  the device directly and destroyed at the end.
\<close>

definition render ::
  "nat \<Rightarrow> Viewport \<Rightarrow> TrianglePass \<times> WebGPU \<Rightarrow>
     error + ((TrianglePass \<times> WebGPU) \<times> DrawIndexed list)" where
  "render minBuffersize viewport st =
     and_then (createMeshBuffer minBuffersize viewport st) (\<lambda>(pass, w).
     and_then (getTexture ''color'' w) (\<lambda>colorTexture.
     and_then (getTexture ''depth'' w) (\<lambda>depthTexture.
     and_then (getTexture ''object-index'' w) (\<lambda>objectIndexTexture.
     and_then (getTexture ''normal'' w) (\<lambda>normalTexture.
     and_then (getBuffer ''object-index'' w) (\<lambda>objectIndexBuffer.
     and_then (getBuffer ''camera'' w) (\<lambda>cameraUniformBuffer.
     and_then (getBuffer ''vertex'' w) (\<lambda>vertexBuffer.
     and_then (getBuffer ''index'' w) (\<lambda>indexBuffer.
     and_then (getBuffer ''transform'' w) (\<lambda>transformBuffer.
       (let (multisampledColorTexture, w) =
               device_createTexture
                 (multisample_descriptor viewport ''rgba8unorm'' ''multisample-color'') w;
            (multisampledDepthTexture, w) =
               device_createTexture
                 (multisample_descriptor viewport ''depth24plus-stencil8'' ''multisample-depth'') w;
            (multisampledNormalTexture, w) =
               device_createTexture
                 (multisample_descriptor viewport ''rgba8unorm'' ''multisample-normal'') w;
            draws = draw_loop (this_drawParameters pass) 0;
            w = texture_destroy multisampledColorTexture w;
            w = texture_destroy multisampledDepthTexture w;
            w = texture_destroy multisampledNormalTexture w
        in Inr ((pass, w), draws))))))))))))"

section \<open>The frame set-up of BasicRenderer.render\<close>

definition TEXTURE_BINDING :: nat where "TEXTURE_BINDING = 4"
definition STORAGE_BINDING :: nat where "STORAGE_BINDING = 8"
definition COPY_SRC :: nat where "COPY_SRC = 1"

text \<open>
  Lines 34 to 58 of \<^verbatim>\<open>BasicRenderer.render\<close>: the four viewport-sized textures are
  created through the registry before any pass runs, in the order \<^verbatim>\<open>color\<close>,
  \<^verbatim>\<open>depth\<close>, \<^verbatim>\<open>object-index\<close>, \<^verbatim>\<open>normal\<close> (innermost call first); the
  handles returned are not used.
\<close>

definition create_frame_textures :: "Viewport \<Rightarrow> WebGPU \<Rightarrow> WebGPU" where
  "create_frame_textures viewport w =
     snd (createTexture
            \<lparr>td_label = None, td_width = width viewport, td_height = height viewport,
             td_format = ''rgba8unorm'',
             td_usage = RENDER_ATTACHMENT OR STORAGE_BINDING OR TEXTURE_BINDING,
             td_sampleCount = 1\<rparr> ''normal''
       (snd (createTexture
              \<lparr>td_label = None, td_width = width viewport, td_height = height viewport,
               td_format = ''r32uint'',
               td_usage = RENDER_ATTACHMENT OR STORAGE_BINDING OR TEXTURE_BINDING,
               td_sampleCount = 1\<rparr> ''object-index''
         (snd (createTexture
                \<lparr>td_label = None, td_width = width viewport, td_height = height viewport,
                 td_format = ''depth24plus-stencil8'',
                 td_usage = RENDER_ATTACHMENT OR TEXTURE_BINDING,
                 td_sampleCount = 1\<rparr> ''depth''
           (snd (createTexture
                  \<lparr>td_label = None, td_width = width viewport, td_height = height viewport,
                   td_format = ''rgba8unorm'',
                   td_usage = RENDER_ATTACHMENT OR STORAGE_BINDING OR TEXTURE_BINDING OR COPY_SRC,
                   td_sampleCount = 1\<rparr> ''color'' w)))))))"

section \<open>Notions used to state the properties\<close>

subsection \<open>Sequences of registry calls and live GPU objects\<close>

datatype create_call =
    CreateBuffer GPUBufferDescriptor string
  | CreateTexture GPUTextureDescriptor string

fun run_create :: "create_call \<Rightarrow> WebGPU \<Rightarrow> WebGPU" where
  "run_create (CreateBuffer d l) w = snd (createBuffer d l w)"
| "run_create (CreateTexture d l) w = snd (createTexture d l w)"

definition run_creates :: "create_call list \<Rightarrow> WebGPU \<Rightarrow> WebGPU" where
  "run_creates cs w = fold run_create cs w"

fun buffer_labels :: "create_call list \<Rightarrow> string list" where
  "buffer_labels [] = []"
| "buffer_labels (CreateBuffer d l # cs) = l # buffer_labels cs"
| "buffer_labels (CreateTexture d l # cs) = buffer_labels cs"

fun texture_labels :: "create_call list \<Rightarrow> string list" where
  "texture_labels [] = []"
| "texture_labels (CreateBuffer d l # cs) = texture_labels cs"
| "texture_labels (CreateTexture d l # cs) = l # texture_labels cs"

text \<open>The handles of the GPU objects with label \<open>l\<close> that have not been destroyed.\<close>

definition live_buffers :: "string \<Rightarrow> WebGPU \<Rightarrow> nat list" where
  "live_buffers l w =
     filter (\<lambda>h. \<not> buf_destroyed (buffer_objects w ! h) \<and> buf_label (buffer_objects w ! h) = l)
       [0..<length (buffer_objects w)]"

definition live_textures :: "string \<Rightarrow> WebGPU \<Rightarrow> nat list" where
  "live_textures l w =
     filter (\<lambda>h. \<not> tex_destroyed (texture_objects w ! h) \<and> tex_label (texture_objects w ! h) = l)
       [0..<length (texture_objects w)]"

text \<open>
  Registry and device agree: every live object is the one registered under its label, and
  every registered handle is a live object carrying that label.
\<close>

definition buffers_ok :: "WebGPU \<Rightarrow> bool" where
  "buffers_ok w \<longleftrightarrow>
     (\<forall>h < length (buffer_objects w). \<not> buf_destroyed (buffer_objects w ! h) \<longrightarrow>
         map_of (sharedBuffers w) (buf_label (buffer_objects w ! h)) = Some h) \<and>
     (\<forall>l h. map_of (sharedBuffers w) l = Some h \<longrightarrow>
         h < length (buffer_objects w) \<and> \<not> buf_destroyed (buffer_objects w ! h) \<and>
         buf_label (buffer_objects w ! h) = l)"

definition textures_ok :: "WebGPU \<Rightarrow> bool" where
  "textures_ok w \<longleftrightarrow>
     (\<forall>h < length (texture_objects w). \<not> tex_destroyed (texture_objects w ! h) \<longrightarrow>
         map_of (sharedTextures w) (tex_label (texture_objects w ! h)) = Some h) \<and>
     (\<forall>l h. map_of (sharedTextures w) l = Some h \<longrightarrow>
         h < length (texture_objects w) \<and> \<not> tex_destroyed (texture_objects w ! h) \<and>
         tex_label (texture_objects w ! h) = l)"

subsection \<open>The registry after the batcher and after the render step\<close>

text \<open>
  The registry after the four \<^verbatim>\<open>createBuffer\<close> calls of lines 172 to 190, and after
  the three multisampled textures of the render step were created and destroyed.
\<close>

definition created_buffers :: "nat \<Rightarrow> Scan \<Rightarrow> Fill \<Rightarrow> WebGPU \<Rightarrow> WebGPU" where
  "created_buffers m s f w =
     snd (createBuffer \<lparr>bd_label = None, bd_size = max (byteLength (idArray f)) m,
                         bd_usage = COPY_DST OR STORAGE\<rparr> ''object-index''
       (snd (createBuffer \<lparr>bd_label = None, bd_size = max (byteLength (transformArray s)) m,
                           bd_usage = COPY_DST OR STORAGE\<rparr> ''transform''
         (snd (createBuffer \<lparr>bd_label = None, bd_size = max (byteLength (indexArray f)) m,
                             bd_usage = COPY_DST OR INDEX\<rparr> ''index''
           (snd (createBuffer \<lparr>bd_label = None, bd_size = max (byteLength (vertexArray f)) m,
                               bd_usage = COPY_DST OR VERTEX\<rparr> ''vertex'' w)))))))"

definition uploaded :: "nat \<Rightarrow> Scan \<Rightarrow> Fill \<Rightarrow> WebGPU \<Rightarrow> WebGPU" where
  "uploaded m s f w =
     writeBuffer (length (buffer_objects w) + 3) (idArray f)
       (writeBuffer (length (buffer_objects w) + 2) (drawParameters f)
         (writeBuffer (length (buffer_objects w) + 1) (indexArray f)
           (writeBuffer (length (buffer_objects w)) (vertexArray f)
              (created_buffers m s f w))))"

definition multisampled :: "Viewport \<Rightarrow> WebGPU \<Rightarrow> WebGPU" where
  "multisampled viewport w =
     texture_destroy (length (texture_objects w) + 2)
       (texture_destroy (length (texture_objects w) + 1)
         (texture_destroy (length (texture_objects w))
           (snd (device_createTexture
                   (multisample_descriptor viewport ''rgba8unorm'' ''multisample-normal'')
             (snd (device_createTexture
                     (multisample_descriptor viewport ''depth24plus-stencil8'' ''multisample-depth'')
               (snd (device_createTexture
                       (multisample_descriptor viewport ''rgba8unorm'' ''multisample-color'')
                       w))))))))"

subsection \<open>Mesh instances of a scene\<close>

text \<open>The mesh-instance entities of a scene, in scan order, as (id, mesh) pairs.\<close>

fun mesh_instances :: "(string \<times> Entity) list \<Rightarrow> (nat \<times> TriangleMesh) list" where
  "mesh_instances [] = []"
| "mesh_instances ((name, MeshInstance i mesh t) # rest) = (i, mesh) # mesh_instances rest"
| "mesh_instances ((name, OtherEntity i) # rest) = mesh_instances rest"

text \<open>
  The first-encountered instance of each distinct mesh, in encounter order; \<open>seen\<close> holds
  the meshes met so far.
\<close>

fun first_encounters :: "nat list \<Rightarrow> (nat \<times> TriangleMesh) list \<Rightarrow> (nat \<times> TriangleMesh) list" where
  "first_encounters seen [] = []"
| "first_encounters seen ((i, mesh) # rest) =
     (if mesh_ref mesh \<in> set seen then first_encounters seen rest
      else (i, mesh) # first_encounters (mesh_ref mesh # seen) rest)"

text \<open>The number of instances that use the mesh with reference \<open>r\<close>.\<close>

definition instance_count :: "(nat \<times> TriangleMesh) list \<Rightarrow> nat \<Rightarrow> nat" where
  "instance_count ms r = length (filter (\<lambda>(i, mesh). mesh_ref mesh = r) ms)"

text \<open>
  The running instance offset of the \<open>j\<close>-th distinct mesh: the instances of the distinct
  meshes before it.
\<close>

definition instance_offset :: "(nat \<times> TriangleMesh) list \<Rightarrow> nat \<Rightarrow> nat" where
  "instance_offset ms j =
     sum_list (map (\<lambda>e. instance_count ms (mesh_ref (snd e)))
                 (take j (first_encounters [] ms)))"

text \<open>
  The instance groups expected after the scan, as the code builds them: one group per
  distinct mesh in first-encounter order, keyed by the first-encountered mesh object, with
  the number of its instances as count and the id of its first instance as the only id.
\<close>

definition group_of ::
  "(nat \<times> TriangleMesh) list \<Rightarrow> nat \<times> TriangleMesh \<Rightarrow> TriangleMesh \<times> InstanceGroup" where
  "group_of ms e = (snd e, \<lparr>count = instance_count ms (mesh_ref (snd e)), ids = [fst e]\<rparr>)"

definition groups_of :: "(nat \<times> TriangleMesh) list \<Rightarrow> (TriangleMesh \<times> InstanceGroup) list" where
  "groups_of ms = map (group_of ms) (first_encounters [] ms)"

text \<open>
  The scenes on which no \<^verbatim>\<open>transformArray.set\<close> of the first loop is out of range: for
  every mesh instance, its id plus the length of its world transform is within the
  \<open>16 * entities.size\<close> floats of the array. A scene whose ids are below the number of
  entities and whose transforms have 16 floats is one of them.
\<close>

definition transforms_fit :: "Scene \<Rightarrow> bool" where
  "transforms_fit sc \<longleftrightarrow>
     list_all (\<lambda>e. case snd e of
                      MeshInstance i mesh t \<Rightarrow> i + length t \<le> length (entities sc) * 16
                    | OtherEntity i \<Rightarrow> True) (entities sc)"

text \<open>Reading the draw-parameter table: its rows, and the sum of its instance counts.\<close>

definition table_row :: "u32 list \<Rightarrow> nat \<Rightarrow> u32 list" where
  "table_row dp r = take 5 (drop (5 * r) dp)"

definition instanceCount_sum :: "u32 list \<Rightarrow> nat" where
  "instanceCount_sum dp = sum_list (map (\<lambda>r. unat (dp ! (5 * r + 1))) [0..<length dp div 5])"

subsection \<open>The scenario of two instances of mesh A and one of mesh B\<close>

text \<open>
  Mesh A has 4 vertices (32 floats at 8 floats per vertex) and 6 indices, mesh B has 3
  vertices (24 floats) and 3 indices. The three entities have the ids 0, 1, 2 and the world
  transforms \<open>scaling 1\<close>, \<open>scaling 2\<close>, \<open>scaling 3\<close>, where \<open>scaling k\<close> stands for a
  matrix whose diagonal holds the bit pattern \<open>k\<close>.
\<close>

definition scaling :: "f32 \<Rightarrow> f32 list" where
  "scaling k = [k, 0, 0, 0,  0, k, 0, 0,  0, 0, k, 0,  0, 0, 0, k]"

definition meshA :: TriangleMesh where
  "meshA = \<lparr>mesh_ref = 1, vertexBuffer = replicate 32 5, elementBuffer = [0, 1, 2, 2, 3, 0]\<rparr>"

definition meshB :: TriangleMesh where
  "meshB = \<lparr>mesh_ref = 2, vertexBuffer = replicate 24 6, elementBuffer = [0, 1, 2]\<rparr>"

definition sceneAAB :: Scene where
  "sceneAAB =
     \<lparr>entities = [(''a1'', MeshInstance 0 meshA (scaling 1)),
                  (''a2'', MeshInstance 1 meshA (scaling 2)),
                  (''b'', MeshInstance 2 meshB (scaling 3))]\<rparr>"

text \<open>The same scene with a fourth entity that is not a mesh instance.\<close>

definition sceneAABL :: Scene where
  "sceneAABL = \<lparr>entities = entities sceneAAB @ [(''light'', OtherEntity 3)]\<rparr>"

definition viewportAAB :: Viewport where
  "viewportAAB = \<lparr>scene = sceneAAB, width = 4, height = 4\<rparr>"

definition empty_viewport :: Viewport where
  "empty_viewport = \<lparr>scene = \<lparr>entities = []\<rparr>, width = 4, height = 4\<rparr>"

text \<open>
  A registry as the pass finds it in a frame: a camera uniform buffer (two matrices, width
  and height; usage \<^verbatim>\<open>UNIFORM | COPY_DST\<close>) and the four textures of the frame.
\<close>

definition frame_registry :: WebGPU where
  "frame_registry =
     create_frame_textures empty_viewport
       (snd (createBuffer \<lparr>bd_label = None, bd_size = 136, bd_usage = 72\<rparr> ''camera'' init))"

section \<open>Properties\<close>

subsection \<open>What one registry call does to the state\<close>

lemma createBuffer_handle: "fst (fst (createBuffer d l w)) = length (buffer_objects w)"
  by (simp add: createBuffer_def device_createBuffer_def Let_def)

lemma createBuffer_descriptor: "snd (fst (createBuffer d l w)) = d\<lparr>bd_label := Some l\<rparr>"
  by (simp add: createBuffer_def device_createBuffer_def Let_def)

lemma createBuffer_shared:
  "sharedBuffers (snd (createBuffer d l w)) =
     AList.update l (length (buffer_objects w)) (sharedBuffers w)"
  by (simp add: createBuffer_def device_createBuffer_def buffer_destroy_def Let_def
      split: option.split)

lemma createBuffer_sharedTextures: "sharedTextures (snd (createBuffer d l w)) = sharedTextures w"
  by (simp add: createBuffer_def device_createBuffer_def buffer_destroy_def Let_def
      split: option.split)

lemma createBuffer_texture_objects:
  "texture_objects (snd (createBuffer d l w)) = texture_objects w"
  by (simp add: createBuffer_def device_createBuffer_def buffer_destroy_def Let_def
      split: option.split)

lemma createBuffer_length:
  "length (buffer_objects (snd (createBuffer d l w))) = Suc (length (buffer_objects w))"
  by (simp add: createBuffer_def device_createBuffer_def buffer_destroy_def Let_def
      split: option.split)

lemma createBuffer_old:
  "h < length (buffer_objects w) \<Longrightarrow>
   buffer_objects (snd (createBuffer d l w)) ! h =
     (if map_of (sharedBuffers w) l = Some h
      then (buffer_objects w ! h)\<lparr>buf_destroyed := True\<rparr>
      else buffer_objects w ! h)"
  by (simp add: createBuffer_def device_createBuffer_def buffer_destroy_def Let_def nth_append
      nth_list_update split: option.split)

lemma createBuffer_new:
  "map_of (sharedBuffers w) l \<noteq> Some (length (buffer_objects w)) \<Longrightarrow>
   buffer_objects (snd (createBuffer d l w)) ! length (buffer_objects w) =
     \<lparr>buf_label = l, buf_size = bd_size d, buf_usage = bd_usage d,
      buf_destroyed = False, buf_data = []\<rparr>"
  by (auto simp add: createBuffer_def device_createBuffer_def buffer_destroy_def Let_def
      nth_append nth_list_update split: option.split)

lemma createBuffer_new_label:
  "buf_label (buffer_objects (snd (createBuffer d l w)) ! length (buffer_objects w)) = l"
  proof (cases "map_of (sharedBuffers w) l = Some (length (buffer_objects w))")
  case True
  then show ?thesis by (simp add: createBuffer_def device_createBuffer_def buffer_destroy_def Let_def)
next
  case False
  then show ?thesis by (simp add: createBuffer_new)
qed

lemma createBuffer_new_size:
  "buf_size (buffer_objects (snd (createBuffer d l w)) ! length (buffer_objects w)) = bd_size d"
  proof (cases "map_of (sharedBuffers w) l = Some (length (buffer_objects w))")
  case True
  then show ?thesis by (simp add: createBuffer_def device_createBuffer_def buffer_destroy_def Let_def)
next
  case False
  then show ?thesis by (simp add: createBuffer_new)
qed

lemma createTexture_handle: "fst (fst (createTexture d l w)) = length (texture_objects w)"
  by (simp add: createTexture_def device_createTexture_def Let_def)

lemma createTexture_descriptor: "snd (fst (createTexture d l w)) = d\<lparr>td_label := Some l\<rparr>"
  by (simp add: createTexture_def device_createTexture_def Let_def)

lemma createTexture_shared:
  "sharedTextures (snd (createTexture d l w)) =
     AList.update l (length (texture_objects w)) (sharedTextures w)"
  by (simp add: createTexture_def device_createTexture_def texture_destroy_def Let_def
      split: option.split)

lemma createTexture_sharedBuffers: "sharedBuffers (snd (createTexture d l w)) = sharedBuffers w"
  by (simp add: createTexture_def device_createTexture_def texture_destroy_def Let_def
      split: option.split)

lemma createTexture_buffer_objects:
  "buffer_objects (snd (createTexture d l w)) = buffer_objects w"
  by (simp add: createTexture_def device_createTexture_def texture_destroy_def Let_def
      split: option.split)

lemma createTexture_length:
  "length (texture_objects (snd (createTexture d l w))) = Suc (length (texture_objects w))"
  by (simp add: createTexture_def device_createTexture_def texture_destroy_def Let_def
      split: option.split)

lemma createTexture_old:
  "h < length (texture_objects w) \<Longrightarrow>
   texture_objects (snd (createTexture d l w)) ! h =
     (if map_of (sharedTextures w) l = Some h
      then (texture_objects w ! h)\<lparr>tex_destroyed := True\<rparr>
      else texture_objects w ! h)"
  by (simp add: createTexture_def device_createTexture_def texture_destroy_def Let_def nth_append
      nth_list_update split: option.split)

lemma createTexture_new:
  "map_of (sharedTextures w) l \<noteq> Some (length (texture_objects w)) \<Longrightarrow>
   texture_objects (snd (createTexture d l w)) ! length (texture_objects w) =
     \<lparr>tex_label = l, tex_width = td_width d, tex_height = td_height d,
      tex_format = td_format d, tex_usage = td_usage d, tex_sampleCount = td_sampleCount d,
      tex_destroyed = False\<rparr>"
  by (auto simp add: createTexture_def device_createTexture_def texture_destroy_def Let_def
      nth_append nth_list_update split: option.split)

lemma createTexture_new_label:
  "tex_label (texture_objects (snd (createTexture d l w)) ! length (texture_objects w)) = l"
  proof (cases "map_of (sharedTextures w) l = Some (length (texture_objects w))")
  case True
  then show ?thesis by (simp add: createTexture_def device_createTexture_def texture_destroy_def Let_def)
next
  case False
  then show ?thesis by (simp add: createTexture_new)
qed

subsection \<open>Registry and device stay in agreement under create\<close>

lemma filter_upt_single:
  assumes "h0 < n" and "\<And>h. h < n \<Longrightarrow> P h \<longleftrightarrow> h = h0"
  shows "filter P [0..<n] = [h0]"
proof -
  have "filter P [0..<n] = filter (\<lambda>h. h = h0) [0..<n]"
    by (rule filter_cong) (use assms in auto)
  also have "\<dots> = [h0]"
    using assms(1) by (induction n) (auto simp: less_Suc_eq)
  finally show ?thesis .
qed

lemma live_buffers_ok:
  assumes "buffers_ok w"
  shows "live_buffers l w = (case map_of (sharedBuffers w) l of None \<Rightarrow> [] | Some h \<Rightarrow> [h])"
proof (cases "map_of (sharedBuffers w) l")
  case None
  then show ?thesis
    using assms unfolding live_buffers_def buffers_ok_def by (auto simp: filter_empty_conv)
next
  case (Some h0)
  then show ?thesis
    using assms unfolding live_buffers_def buffers_ok_def by (auto intro!: filter_upt_single)
qed

lemma live_textures_ok:
  assumes "textures_ok w"
  shows "live_textures l w = (case map_of (sharedTextures w) l of None \<Rightarrow> [] | Some h \<Rightarrow> [h])"
proof (cases "map_of (sharedTextures w) l")
  case None
  then show ?thesis
    using assms unfolding live_textures_def textures_ok_def by (auto simp: filter_empty_conv)
next
  case (Some h0)
  then show ?thesis
    using assms unfolding live_textures_def textures_ok_def by (auto intro!: filter_upt_single)
qed

lemma buffers_ok_fresh:
  "buffers_ok w \<Longrightarrow> map_of (sharedBuffers w) l \<noteq> Some (length (buffer_objects w))"
  unfolding buffers_ok_def by fastforce

lemma textures_ok_fresh:
  "textures_ok w \<Longrightarrow> map_of (sharedTextures w) l \<noteq> Some (length (texture_objects w))"
  unfolding textures_ok_def by fastforce

lemma createBuffer_ok:
  assumes ok: "buffers_ok w"
  shows "buffers_ok (snd (createBuffer d l w))"
proof -
  let ?w' = "snd (createBuffer d l w)"
  let ?n = "length (buffer_objects w)"
  have reg: "\<And>l' h. map_of (sharedBuffers w) l' = Some h \<Longrightarrow>
      h < ?n \<and> \<not> buf_destroyed (buffer_objects w ! h) \<and> buf_label (buffer_objects w ! h) = l'"
    using ok unfolding buffers_ok_def by blast
  have live: "\<And>h. h < ?n \<Longrightarrow> \<not> buf_destroyed (buffer_objects w ! h) \<Longrightarrow>
      map_of (sharedBuffers w) (buf_label (buffer_objects w ! h)) = Some h"
    using ok unfolding buffers_ok_def by blast
  have new: "buffer_objects ?w' ! ?n =
      \<lparr>buf_label = l, buf_size = bd_size d, buf_usage = bd_usage d,
       buf_destroyed = False, buf_data = []\<rparr>"
    by (rule createBuffer_new[OF buffers_ok_fresh[OF ok]])
  have m: "map_of (sharedBuffers ?w') = (map_of (sharedBuffers w))(l \<mapsto> ?n)"
    by (simp add: createBuffer_shared update_conv')
  have 1: "map_of (sharedBuffers ?w') (buf_label (buffer_objects ?w' ! h)) = Some h"
    if h: "h < length (buffer_objects ?w')" and nd: "\<not> buf_destroyed (buffer_objects ?w' ! h)"
    for h
  proof (cases "h = ?n")
    case True
    then show ?thesis by (simp add: m new)
  next
    case False
    then have hn: "h < ?n" using h by (simp add: createBuffer_length)
    have ne: "map_of (sharedBuffers w) l \<noteq> Some h"
      using nd by (auto simp: createBuffer_old[OF hn])
    then have eq: "buffer_objects ?w' ! h = buffer_objects w ! h"
      by (simp add: createBuffer_old[OF hn])
    have "map_of (sharedBuffers w) (buf_label (buffer_objects w ! h)) = Some h"
      using live[OF hn] nd eq by simp
    moreover have "buf_label (buffer_objects w ! h) \<noteq> l"
      using calculation ne by auto
    ultimately show ?thesis by (simp add: m eq)
  qed
  have 2: "h < length (buffer_objects ?w') \<and> \<not> buf_destroyed (buffer_objects ?w' ! h) \<and>
         buf_label (buffer_objects ?w' ! h) = l'"
    if s: "map_of (sharedBuffers ?w') l' = Some h" for l' h
  proof (cases "l' = l")
    case True
    then have "h = ?n" using s by (simp add: m)
    then show ?thesis using True by (simp add: new createBuffer_length)
  next
    case False
    then have s': "map_of (sharedBuffers w) l' = Some h" using s by (simp add: m)
    note r = reg[OF s']
    have "map_of (sharedBuffers w) l \<noteq> Some h"
    proof
      assume "map_of (sharedBuffers w) l = Some h"
      from reg[OF this] r False show False by simp
    qed
    then have "buffer_objects ?w' ! h = buffer_objects w ! h"
      using r by (simp add: createBuffer_old)
    then show ?thesis using r by (simp add: createBuffer_length)
  qed
  show ?thesis unfolding buffers_ok_def using 1 2 by blast
qed

lemma createTexture_ok:
  assumes ok: "textures_ok w"
  shows "textures_ok (snd (createTexture d l w))"
proof -
  let ?w' = "snd (createTexture d l w)"
  let ?n = "length (texture_objects w)"
  have reg: "\<And>l' h. map_of (sharedTextures w) l' = Some h \<Longrightarrow>
      h < ?n \<and> \<not> tex_destroyed (texture_objects w ! h) \<and> tex_label (texture_objects w ! h) = l'"
    using ok unfolding textures_ok_def by blast
  have live: "\<And>h. h < ?n \<Longrightarrow> \<not> tex_destroyed (texture_objects w ! h) \<Longrightarrow>
      map_of (sharedTextures w) (tex_label (texture_objects w ! h)) = Some h"
    using ok unfolding textures_ok_def by blast
  have new: "texture_objects ?w' ! ?n =
      \<lparr>tex_label = l, tex_width = td_width d, tex_height = td_height d,
       tex_format = td_format d, tex_usage = td_usage d, tex_sampleCount = td_sampleCount d,
       tex_destroyed = False\<rparr>"
    by (rule createTexture_new[OF textures_ok_fresh[OF ok]])
  have m: "map_of (sharedTextures ?w') = (map_of (sharedTextures w))(l \<mapsto> ?n)"
    by (simp add: createTexture_shared update_conv')
  have 1: "map_of (sharedTextures ?w') (tex_label (texture_objects ?w' ! h)) = Some h"
    if h: "h < length (texture_objects ?w')" and nd: "\<not> tex_destroyed (texture_objects ?w' ! h)"
    for h
  proof (cases "h = ?n")
    case True
    then show ?thesis by (simp add: m new)
  next
    case False
    then have hn: "h < ?n" using h by (simp add: createTexture_length)
    have ne: "map_of (sharedTextures w) l \<noteq> Some h"
      using nd by (auto simp: createTexture_old[OF hn])
    then have eq: "texture_objects ?w' ! h = texture_objects w ! h"
      by (simp add: createTexture_old[OF hn])
    have "map_of (sharedTextures w) (tex_label (texture_objects w ! h)) = Some h"
      using live[OF hn] nd eq by simp
    moreover have "tex_label (texture_objects w ! h) \<noteq> l"
      using calculation ne by auto
    ultimately show ?thesis by (simp add: m eq)
  qed
  have 2: "h < length (texture_objects ?w') \<and> \<not> tex_destroyed (texture_objects ?w' ! h) \<and>
         tex_label (texture_objects ?w' ! h) = l'"
    if s: "map_of (sharedTextures ?w') l' = Some h" for l' h
  proof (cases "l' = l")
    case True
    then have "h = ?n" using s by (simp add: m)
    then show ?thesis using True by (simp add: new createTexture_length)
  next
    case False
    then have s': "map_of (sharedTextures w) l' = Some h" using s by (simp add: m)
    note r = reg[OF s']
    have "map_of (sharedTextures w) l \<noteq> Some h"
    proof
      assume "map_of (sharedTextures w) l = Some h"
      from reg[OF this] r False show False by simp
    qed
    then have "texture_objects ?w' ! h = texture_objects w ! h"
      using r by (simp add: createTexture_old)
    then show ?thesis using r by (simp add: createTexture_length)
  qed
  show ?thesis unfolding textures_ok_def using 1 2 by blast
qed

lemma createBuffer_textures_ok: "textures_ok w \<Longrightarrow> textures_ok (snd (createBuffer d l w))"
  unfolding textures_ok_def by (simp add: createBuffer_sharedTextures createBuffer_texture_objects)

lemma createTexture_buffers_ok: "buffers_ok w \<Longrightarrow> buffers_ok (snd (createTexture d l w))"
  unfolding buffers_ok_def by (simp add: createTexture_sharedBuffers createTexture_buffer_objects)

lemma init_ok: "buffers_ok init \<and> textures_ok init"
  by (simp add: buffers_ok_def textures_ok_def init_def)

lemma run_create_ok:
  "buffers_ok w \<and> textures_ok w \<Longrightarrow> buffers_ok (run_create c w) \<and> textures_ok (run_create c w)"
  by (cases c)
    (simp_all add: createBuffer_ok createTexture_ok createBuffer_textures_ok
      createTexture_buffers_ok)

lemma run_creates_ok:
  "buffers_ok w \<and> textures_ok w \<Longrightarrow>
   buffers_ok (run_creates cs w) \<and> textures_ok (run_creates cs w)"
  unfolding run_creates_def
proof (induction cs arbitrary: w)
  case Nil
  then show ?case by simp
next
  case (Cons c cs)
  from Cons.IH[OF run_create_ok[OF Cons.prems]] show ?case by simp
qed

lemma run_creates_buffer_keys:
  "fst ` set (sharedBuffers (run_creates cs w)) =
     fst ` set (sharedBuffers w) \<union> set (buffer_labels cs)"
  unfolding run_creates_def
proof (induction cs arbitrary: w rule: buffer_labels.induct)
  case 1
  then show ?case by simp
next
  case (2 d l cs)
  show ?case by (simp add: 2 createBuffer_shared dom_update)
next
  case (3 d l cs)
  show ?case by (simp add: 3 createTexture_sharedBuffers)
qed

lemma run_creates_texture_keys:
  "fst ` set (sharedTextures (run_creates cs w)) =
     fst ` set (sharedTextures w) \<union> set (texture_labels cs)"
  unfolding run_creates_def
proof (induction cs arbitrary: w rule: texture_labels.induct)
  case 1
  then show ?case by simp
next
  case (2 d l cs)
  show ?case by (simp add: 2 createBuffer_sharedTextures)
next
  case (3 d l cs)
  show ?case by (simp add: 3 createTexture_shared dom_update)
qed

lemma getBuffer_no_key:
  "l \<notin> fst ` set (sharedBuffers w) \<Longrightarrow>
   getBuffer l w = Inl (ResourceNotFound (''There is no buffer with the label: '' @ l))"
  by (simp add: getBuffer_def map_of_eq_None_iff [THEN iffD2])

lemma getTexture_no_key:
  "l \<notin> fst ` set (sharedTextures w) \<Longrightarrow>
   getTexture l w = Inl (ResourceNotFound (''There is no texture with the label: '' @ l))"
  by (simp add: getTexture_def map_of_eq_None_iff [THEN iffD2])

subsection \<open>The registry claims\<close>

text \<open>
  C7 as stated fails: buffers and textures are kept in two separate maps, so a create of one
  kind never destroys a resource of the other kind. After the texture \<^verbatim>\<open>object-index\<close>
  of \<^verbatim>\<open>BasicRenderer.render\<close> and the buffer \<^verbatim>\<open>object-index\<close> of the batcher
  were created on a fresh registry, two live resources exist under that one label, and both
  look-ups succeed.
\<close>

theorem one_live_resource_per_label_counterexample:
  "(let e = \<lparr>td_label = None, td_width = 4, td_height = 4, td_format = ''r32uint'',
             td_usage = RENDER_ATTACHMENT OR STORAGE_BINDING OR TEXTURE_BINDING,
             td_sampleCount = 1\<rparr>;
        d = \<lparr>bd_label = None, bd_size = 32, bd_usage = COPY_DST OR STORAGE\<rparr>;
        w = run_creates [CreateTexture e ''object-index'', CreateBuffer d ''object-index''] init
    in live_textures ''object-index'' w = [0] \<and> live_buffers ''object-index'' w = [0] \<and>
       length (live_textures ''object-index'' w @ live_buffers ''object-index'' w) = 2 \<and>
       getTexture ''object-index'' w = Inr 0 \<and> getBuffer ''object-index'' w = Inr 0 \<and>
       map tex_destroyed (texture_objects w) = [False] \<and>
       map buf_destroyed (buffer_objects w) = [False])"
  by code_simp

text \<open>
  C7 as amended: one live resource per label and kind. After any sequence of registry create
  calls (buffers and textures, any labels) on a fresh registry, every label has at most one
  live buffer, the one registered under it, and at most one live texture, the one registered
  under it. One more \<open>createBuffer\<close> under a label \<open>L\<close> returns a fresh handle,
  \<open>getBuffer L\<close> then returns that handle, it is the only live buffer labelled \<open>L\<close>, and
  the buffer that was registered under \<open>L\<close> before is destroyed; likewise for
  \<open>createTexture\<close> and textures. Replacing a label twice in a row is the case where the
  sequence already ends with a create of that kind under \<open>L\<close>.
\<close>

theorem one_live_resource_per_label_and_kind:
  "(let w = run_creates cs init;
        ((b, bd), wb) = createBuffer d L w;
        ((t, td), wt) = createTexture e L w
    in live_buffers L' w = (case map_of (sharedBuffers w) L' of None \<Rightarrow> [] | Some h \<Rightarrow> [h]) \<and>
       live_textures L' w = (case map_of (sharedTextures w) L' of None \<Rightarrow> [] | Some h \<Rightarrow> [h]) \<and>
       b = length (buffer_objects w) \<and> getBuffer L wb = Inr b \<and> live_buffers L wb = [b] \<and>
       (case getBuffer L w of Inl err \<Rightarrow> True | Inr old \<Rightarrow> buf_destroyed (buffer_objects wb ! old)) \<and>
       t = length (texture_objects w) \<and> getTexture L wt = Inr t \<and> live_textures L wt = [t] \<and>
       (case getTexture L w of Inl err \<Rightarrow> True | Inr old \<Rightarrow> tex_destroyed (texture_objects wt ! old)))"
proof -
  define w where "w = run_creates cs init"
  have ok: "buffers_ok w" "textures_ok w"
    using run_creates_ok[OF init_ok, of cs] by (simp_all add: w_def)
  have okb: "buffers_ok (snd (createBuffer d L w))" by (rule createBuffer_ok[OF ok(1)])
  have okt: "textures_ok (snd (createTexture e L w))" by (rule createTexture_ok[OF ok(2)])
  have gb: "getBuffer L (snd (createBuffer d L w)) = Inr (length (buffer_objects w))"
    by (simp add: getBuffer_def createBuffer_shared update_conv')
  have gt: "getTexture L (snd (createTexture e L w)) = Inr (length (texture_objects w))"
    by (simp add: getTexture_def createTexture_shared update_conv')
  have lb: "live_buffers L (snd (createBuffer d L w)) = [length (buffer_objects w)]"
    by (simp add: live_buffers_ok[OF okb] createBuffer_shared update_conv')
  have lt: "live_textures L (snd (createTexture e L w)) = [length (texture_objects w)]"
    by (simp add: live_textures_ok[OF okt] createTexture_shared update_conv')
  have ob: "buf_destroyed (buffer_objects (snd (createBuffer d L w)) ! old)"
    if "map_of (sharedBuffers w) L = Some old" for old
  proof -
    have "old < length (buffer_objects w)" using ok(1) that unfolding buffers_ok_def by blast
    then show ?thesis using that by (simp add: createBuffer_old)
  qed
  have ot: "tex_destroyed (texture_objects (snd (createTexture e L w)) ! old)"
    if "map_of (sharedTextures w) L = Some old" for old
  proof -
    have "old < length (texture_objects w)" using ok(2) that unfolding textures_ok_def by blast
    then show ?thesis using that by (simp add: createTexture_old)
  qed
  have ob': "case getBuffer L w of Inl err \<Rightarrow> True
             | Inr old \<Rightarrow> buf_destroyed (buffer_objects (snd (createBuffer d L w)) ! old)"
    using ob by (simp add: getBuffer_def split: option.split)
  have ot': "case getTexture L w of Inl err \<Rightarrow> True
             | Inr old \<Rightarrow> tex_destroyed (texture_objects (snd (createTexture e L w)) ! old)"
    using ot by (simp add: getTexture_def split: option.split)
  show ?thesis
    unfolding w_def[symmetric] Let_def
    using live_buffers_ok[OF ok(1), of L'] live_textures_ok[OF ok(2), of L'] gb gt lb lt ob' ot'
      createBuffer_handle[of d L w] createTexture_handle[of e L w]
    by (simp add: case_prod_beta)
qed

text \<open>
  The instance of the amended C7 where a buffer is created under \<^verbatim>\<open>vertex\<close> three
  times, with a texture of the same label in between: of the buffers only the third (handle
  2) is live, and the texture stays live beside it.
\<close>

theorem one_live_resource_per_label_and_kind_witness:
  "(let d = \<lparr>bd_label = None, bd_size = 32, bd_usage = 40\<rparr>;
        e = \<lparr>td_label = None, td_width = 4, td_height = 4, td_format = ''rgba8unorm'',
             td_usage = 16, td_sampleCount = 1\<rparr>;
        w = run_creates [CreateBuffer d ''vertex'', CreateTexture e ''vertex'',
                         CreateBuffer d ''vertex''] init;
        wb = snd (createBuffer d ''vertex'' w)
    in live_buffers ''vertex'' w = [1] \<and> live_textures ''vertex'' w = [0] \<and>
       getBuffer ''vertex'' wb = Inr 2 \<and> live_buffers ''vertex'' wb = [2] \<and>
       map buf_destroyed (buffer_objects wb) = [True, True, False])"
  using one_live_resource_per_label_and_kind
    [of "[CreateBuffer \<lparr>bd_label = None, bd_size = 32, bd_usage = 40\<rparr> ''vertex'',
          CreateTexture \<lparr>td_label = None, td_width = 4, td_height = 4,
                         td_format = ''rgba8unorm'', td_usage = 16, td_sampleCount = 1\<rparr> ''vertex'',
          CreateBuffer \<lparr>bd_label = None, bd_size = 32, bd_usage = 40\<rparr> ''vertex'']"
        "\<lparr>bd_label = None, bd_size = 32, bd_usage = 40\<rparr>" "''vertex''"
        "\<lparr>td_label = None, td_width = 4, td_height = 4, td_format = ''rgba8unorm'',
          td_usage = 16, td_sampleCount = 1\<rparr>" "''vertex''"]
  by code_simp

text \<open>
  C8. On a registry on which no buffer (no texture) was created under \<open>L\<close>, and on any
  registry right after the entry of \<open>L\<close> was removed, \<open>getBuffer L\<close> (\<open>getTexture L\<close>)
  raises the error; no handle is returned.
\<close>

theorem get_without_entry_raises:
  "(L \<notin> set (buffer_labels cs) \<longrightarrow>
      getBuffer L (run_creates cs init) =
        Inl (ResourceNotFound (''There is no buffer with the label: '' @ L))) \<and>
   (L \<notin> set (texture_labels cs) \<longrightarrow>
      getTexture L (run_creates cs init) =
        Inl (ResourceNotFound (''There is no texture with the label: '' @ L))) \<and>
   getBuffer L (destroyBuffer L w) =
     Inl (ResourceNotFound (''There is no buffer with the label: '' @ L)) \<and>
   getTexture L (destroyTexture L w) =
     Inl (ResourceNotFound (''There is no texture with the label: '' @ L))"
proof -
  have b: "L \<notin> fst ` set (sharedBuffers (run_creates cs init))" if "L \<notin> set (buffer_labels cs)"
    using that by (simp add: run_creates_buffer_keys init_def)
  have t: "L \<notin> fst ` set (sharedTextures (run_creates cs init))" if "L \<notin> set (texture_labels cs)"
    using that by (simp add: run_creates_texture_keys init_def)
  have db: "L \<notin> fst ` set (sharedBuffers (destroyBuffer L w))"
    by (simp add: destroyBuffer_def delete_notin_dom)
  have dt: "L \<notin> fst ` set (sharedTextures (destroyTexture L w))"
    by (simp add: destroyTexture_def texture_destroy_def Let_def delete_notin_dom
        split: option.split)
  show ?thesis
    using getBuffer_no_key[OF b] getTexture_no_key[OF t] getBuffer_no_key[OF db]
      getTexture_no_key[OF dt]
    by blast
qed

text \<open>
  The instance of C8 for the label \<^verbatim>\<open>camera\<close> after a buffer and a texture were created
  under \<^verbatim>\<open>color\<close>, and for \<^verbatim>\<open>color\<close> after its entries were removed.
\<close>

theorem get_without_entry_raises_witness:
  "(let d = \<lparr>bd_label = None, bd_size = 32, bd_usage = 40\<rparr>;
        e = \<lparr>td_label = None, td_width = 4, td_height = 4, td_format = ''rgba8unorm'',
             td_usage = 16, td_sampleCount = 1\<rparr>;
        w = run_creates [CreateBuffer d ''color'', CreateTexture e ''color''] init
    in ''camera'' \<notin> set (buffer_labels [CreateBuffer d ''color'', CreateTexture e ''color'']) \<and>
       ''camera'' \<notin> set (texture_labels [CreateBuffer d ''color'', CreateTexture e ''color'']) \<and>
       getBuffer ''camera'' w =
         Inl (ResourceNotFound ''There is no buffer with the label: camera'') \<and>
       getTexture ''camera'' w =
         Inl (ResourceNotFound ''There is no texture with the label: camera'') \<and>
       getBuffer ''color'' w = Inr 0 \<and>
       getBuffer ''color'' (destroyBuffer ''color'' w) =
         Inl (ResourceNotFound ''There is no buffer with the label: color'') \<and>
       getTexture ''color'' (destroyTexture ''color'' w) =
         Inl (ResourceNotFound ''There is no texture with the label: color''))"
  using get_without_entry_raises
    [of "''camera''"
        "[CreateBuffer \<lparr>bd_label = None, bd_size = 32, bd_usage = 40\<rparr> ''color'',
          CreateTexture \<lparr>td_label = None, td_width = 4, td_height = 4,
                         td_format = ''rgba8unorm'', td_usage = 16, td_sampleCount = 1\<rparr> ''color'']"]
  by code_simp

text \<open>
  C9, evaluated where it fails. A buffer and a texture are created under \<^verbatim>\<open>vertex\<close> on a
  fresh registry and then destroyed by label. Both entries are gone, and the texture object
  is destroyed, but the buffer object is not: it is still live on the device.
\<close>

theorem destroyBuffer_does_not_release:
  "(let d = \<lparr>bd_label = None, bd_size = 32, bd_usage = COPY_DST OR VERTEX\<rparr>;
        e = \<lparr>td_label = None, td_width = 4, td_height = 4, td_format = ''rgba8unorm'',
             td_usage = RENDER_ATTACHMENT, td_sampleCount = 1\<rparr>;
        ((b, bd), w1) = createBuffer d ''vertex'' init;
        ((t, td), w2) = createTexture e ''vertex'' w1;
        w3 = destroyTexture ''vertex'' (destroyBuffer ''vertex'' w2)
    in sharedBuffers w3 = [] \<and> sharedTextures w3 = [] \<and>
       tex_destroyed (texture_objects w3 ! t) \<and>
       \<not> buf_destroyed (buffer_objects w3 ! b) \<and>
       live_buffers ''vertex'' w3 = [b] \<and> live_textures ''vertex'' w3 = [])"
  by code_simp

text \<open>
  C10. \<open>createBuffer\<close> and \<open>createTexture\<close> leave the caller's descriptor with its label
  overwritten by the label argument (whatever label it had), and the GPU object is created
  from the descriptor with that label.
\<close>

theorem create_overwrites_descriptor_label:
  "snd (fst (createBuffer d l w)) = d\<lparr>bd_label := Some l\<rparr> \<and>
   buf_label (buffer_objects (snd (createBuffer d l w)) ! fst (fst (createBuffer d l w))) = l \<and>
   snd (fst (createTexture e l w)) = e\<lparr>td_label := Some l\<rparr> \<and>
   tex_label (texture_objects (snd (createTexture e l w)) ! fst (fst (createTexture e l w))) = l"
  by (simp add: createBuffer_descriptor createBuffer_handle createBuffer_new_label
      createTexture_descriptor createTexture_handle createTexture_new_label)

text \<open>The instance of C10 for a descriptor that came with the label \<^verbatim>\<open>mine\<close>.\<close>

theorem create_overwrites_descriptor_label_witness:
  "bd_label (snd (fst (createBuffer \<lparr>bd_label = Some ''mine'', bd_size = 32, bd_usage = 40\<rparr>
                         ''vertex'' init))) = Some ''vertex'' \<and>
   map buf_label (buffer_objects (snd (createBuffer
      \<lparr>bd_label = Some ''mine'', bd_size = 32, bd_usage = 40\<rparr> ''vertex'' init))) = [''vertex'']"
  using create_overwrites_descriptor_label
    [of "\<lparr>bd_label = Some ''mine'', bd_size = 32, bd_usage = 40\<rparr>" "''vertex''" init]
  by code_simp

subsection \<open>The batcher and the render step as state transformers\<close>

lemma createBuffer_old_size:
  "h < length (buffer_objects w) \<Longrightarrow>
   buf_size (buffer_objects (snd (createBuffer d l w)) ! h) = buf_size (buffer_objects w ! h)"
  by (simp add: createBuffer_old)

lemma createBuffer_old_label:
  "h < length (buffer_objects w) \<Longrightarrow>
   buf_label (buffer_objects (snd (createBuffer d l w)) ! h) = buf_label (buffer_objects w ! h)"
  by (simp add: createBuffer_old)

lemma writeBuffer_sharedBuffers: "sharedBuffers (writeBuffer h d w) = sharedBuffers w"
  by (simp add: writeBuffer_def)

lemma writeBuffer_sharedTextures: "sharedTextures (writeBuffer h d w) = sharedTextures w"
  by (simp add: writeBuffer_def)

lemma writeBuffer_texture_objects: "texture_objects (writeBuffer h d w) = texture_objects w"
  by (simp add: writeBuffer_def)

lemma writeBuffer_length:
  "length (buffer_objects (writeBuffer h d w)) = length (buffer_objects w)"
  by (simp add: writeBuffer_def)

lemma writeBuffer_size:
  "i < length (buffer_objects w) \<Longrightarrow>
   buf_size (buffer_objects (writeBuffer h d w) ! i) = buf_size (buffer_objects w ! i)"
  by (cases "i = h") (simp_all add: writeBuffer_def)

lemma writeBuffer_label:
  "i < length (buffer_objects w) \<Longrightarrow>
   buf_label (buffer_objects (writeBuffer h d w) ! i) = buf_label (buffer_objects w ! i)"
  by (cases "i = h") (simp_all add: writeBuffer_def)

lemma created_buffers_length:
  "length (buffer_objects (created_buffers m s f w)) = length (buffer_objects w) + 4"
  by (simp add: created_buffers_def createBuffer_length)

lemma created_buffers_shared:
  "sharedBuffers (created_buffers m s f w) =
     AList.update ''object-index'' (length (buffer_objects w) + 3)
       (AList.update ''transform'' (length (buffer_objects w) + 2)
         (AList.update ''index'' (length (buffer_objects w) + 1)
           (AList.update ''vertex'' (length (buffer_objects w)) (sharedBuffers w))))"
  by (simp add: created_buffers_def createBuffer_shared createBuffer_length numeral_3_eq_3)

lemma created_buffers_textures:
  "sharedTextures (created_buffers m s f w) = sharedTextures w \<and>
   texture_objects (created_buffers m s f w) = texture_objects w"
  by (simp add: created_buffers_def createBuffer_sharedTextures createBuffer_texture_objects)

lemma created_buffers_sizes:
  "buf_size (buffer_objects (created_buffers m s f w) ! length (buffer_objects w)) =
     max (byteLength (vertexArray f)) m"
  "buf_size (buffer_objects (created_buffers m s f w) ! Suc (length (buffer_objects w))) =
     max (byteLength (indexArray f)) m"
  "buf_size (buffer_objects (created_buffers m s f w) ! Suc (Suc (length (buffer_objects w)))) =
     max (byteLength (transformArray s)) m"
  "buf_size (buffer_objects (created_buffers m s f w) ! (length (buffer_objects w) + 3)) =
     max (byteLength (idArray f)) m"
proof -
  let ?d1 = "\<lparr>bd_label = None, bd_size = max (byteLength (vertexArray f)) m,
              bd_usage = COPY_DST OR VERTEX\<rparr>"
  let ?d2 = "\<lparr>bd_label = None, bd_size = max (byteLength (indexArray f)) m,
              bd_usage = COPY_DST OR INDEX\<rparr>"
  let ?d3 = "\<lparr>bd_label = None, bd_size = max (byteLength (transformArray s)) m,
              bd_usage = COPY_DST OR STORAGE\<rparr>"
  let ?d4 = "\<lparr>bd_label = None, bd_size = max (byteLength (idArray f)) m,
              bd_usage = COPY_DST OR STORAGE\<rparr>"
  let ?n = "length (buffer_objects w)"
  define w1 where "w1 = snd (createBuffer ?d1 ''vertex'' w)"
  define w2 where "w2 = snd (createBuffer ?d2 ''index'' w1)"
  define w3 where "w3 = snd (createBuffer ?d3 ''transform'' w2)"
  define w4 where "w4 = snd (createBuffer ?d4 ''object-index'' w3)"
  have l1: "length (buffer_objects w1) = ?n + 1" by (simp add: w1_def createBuffer_length)
  have l2: "length (buffer_objects w2) = ?n + 2" by (simp add: w2_def createBuffer_length l1)
  have l3: "length (buffer_objects w3) = ?n + 3" by (simp add: w3_def createBuffer_length l2)
  have w4: "created_buffers m s f w = w4"
    by (simp only: created_buffers_def w1_def w2_def w3_def w4_def)
  have a1: "buf_size (buffer_objects w1 ! ?n) = bd_size ?d1"
    unfolding w1_def by (rule createBuffer_new_size)
  have a2: "buf_size (buffer_objects w2 ! (?n + 1)) = bd_size ?d2"
    unfolding w2_def using createBuffer_new_size[of ?d2 "''index''" w1] by (simp only: l1)
  have a3: "buf_size (buffer_objects w3 ! (?n + 2)) = bd_size ?d3"
    unfolding w3_def using createBuffer_new_size[of ?d3 "''transform''" w2] by (simp only: l2)
  have a4: "buf_size (buffer_objects w4 ! (?n + 3)) = bd_size ?d4"
    unfolding w4_def using createBuffer_new_size[of ?d4 "''object-index''" w3] by (simp only: l3)
  have k2: "buf_size (buffer_objects w2 ! h) = buf_size (buffer_objects w1 ! h)" if "h < ?n + 1" for h
    unfolding w2_def using that by (simp add: createBuffer_old_size l1)
  have k3: "buf_size (buffer_objects w3 ! h) = buf_size (buffer_objects w2 ! h)" if "h < ?n + 2" for h
    unfolding w3_def using that by (simp add: createBuffer_old_size l2)
  have k4: "buf_size (buffer_objects w4 ! h) = buf_size (buffer_objects w3 ! h)" if "h < ?n + 3" for h
    unfolding w4_def using that by (simp add: createBuffer_old_size l3)
  show "buf_size (buffer_objects (created_buffers m s f w) ! ?n) = max (byteLength (vertexArray f)) m"
    using a1 k2[of ?n] k3[of ?n] k4[of ?n] by (simp add: w4)
  show "buf_size (buffer_objects (created_buffers m s f w) ! Suc ?n) =
      max (byteLength (indexArray f)) m"
    using a2 k3[of "?n + 1"] k4[of "?n + 1"] by (simp add: w4)
  show "buf_size (buffer_objects (created_buffers m s f w) ! Suc (Suc ?n)) =
      max (byteLength (transformArray s)) m"
    using a3 k4[of "?n + 2"] by (simp add: w4)
  show "buf_size (buffer_objects (created_buffers m s f w) ! (?n + 3)) =
      max (byteLength (idArray f)) m"
    using a4 by (simp add: w4)
qed

lemma created_buffers_labels:
  "buf_label (buffer_objects (created_buffers m s f w) ! length (buffer_objects w)) = ''vertex''"
  "buf_label (buffer_objects (created_buffers m s f w) ! Suc (length (buffer_objects w))) = ''index''"
  "buf_label (buffer_objects (created_buffers m s f w) ! Suc (Suc (length (buffer_objects w)))) =
     ''transform''"
  "buf_label (buffer_objects (created_buffers m s f w) ! (length (buffer_objects w) + 3)) =
     ''object-index''"
proof -
  let ?d1 = "\<lparr>bd_label = None, bd_size = max (byteLength (vertexArray f)) m,
              bd_usage = COPY_DST OR VERTEX\<rparr>"
  let ?d2 = "\<lparr>bd_label = None, bd_size = max (byteLength (indexArray f)) m,
              bd_usage = COPY_DST OR INDEX\<rparr>"
  let ?d3 = "\<lparr>bd_label = None, bd_size = max (byteLength (transformArray s)) m,
              bd_usage = COPY_DST OR STORAGE\<rparr>"
  let ?d4 = "\<lparr>bd_label = None, bd_size = max (byteLength (idArray f)) m,
              bd_usage = COPY_DST OR STORAGE\<rparr>"
  let ?n = "length (buffer_objects w)"
  define w1 where "w1 = snd (createBuffer ?d1 ''vertex'' w)"
  define w2 where "w2 = snd (createBuffer ?d2 ''index'' w1)"
  define w3 where "w3 = snd (createBuffer ?d3 ''transform'' w2)"
  define w4 where "w4 = snd (createBuffer ?d4 ''object-index'' w3)"
  have l1: "length (buffer_objects w1) = ?n + 1" by (simp add: w1_def createBuffer_length)
  have l2: "length (buffer_objects w2) = ?n + 2" by (simp add: w2_def createBuffer_length l1)
  have l3: "length (buffer_objects w3) = ?n + 3" by (simp add: w3_def createBuffer_length l2)
  have w4: "created_buffers m s f w = w4"
    by (simp only: created_buffers_def w1_def w2_def w3_def w4_def)
  have a1: "buf_label (buffer_objects w1 ! ?n) = ''vertex''"
    unfolding w1_def by (rule createBuffer_new_label)
  have a2: "buf_label (buffer_objects w2 ! (?n + 1)) = ''index''"
    unfolding w2_def using createBuffer_new_label[of ?d2 "''index''" w1] by (simp only: l1)
  have a3: "buf_label (buffer_objects w3 ! (?n + 2)) = ''transform''"
    unfolding w3_def using createBuffer_new_label[of ?d3 "''transform''" w2] by (simp only: l2)
  have a4: "buf_label (buffer_objects w4 ! (?n + 3)) = ''object-index''"
    unfolding w4_def using createBuffer_new_label[of ?d4 "''object-index''" w3] by (simp only: l3)
  have k2: "buf_label (buffer_objects w2 ! h) = buf_label (buffer_objects w1 ! h)" if "h < ?n + 1" for h
    unfolding w2_def using that by (simp add: createBuffer_old_label l1)
  have k3: "buf_label (buffer_objects w3 ! h) = buf_label (buffer_objects w2 ! h)" if "h < ?n + 2" for h
    unfolding w3_def using that by (simp add: createBuffer_old_label l2)
  have k4: "buf_label (buffer_objects w4 ! h) = buf_label (buffer_objects w3 ! h)" if "h < ?n + 3" for h
    unfolding w4_def using that by (simp add: createBuffer_old_label l3)
  show "buf_label (buffer_objects (created_buffers m s f w) ! ?n) = ''vertex''"
    using a1 k2[of ?n] k3[of ?n] k4[of ?n] by (simp add: w4)
  show "buf_label (buffer_objects (created_buffers m s f w) ! Suc ?n) = ''index''"
    using a2 k3[of "?n + 1"] k4[of "?n + 1"] by (simp add: w4)
  show "buf_label (buffer_objects (created_buffers m s f w) ! Suc (Suc ?n)) = ''transform''"
    using a3 k4[of "?n + 2"] by (simp add: w4)
  show "buf_label (buffer_objects (created_buffers m s f w) ! (?n + 3)) = ''object-index''"
    using a4 by (simp add: w4)
qed

lemma drop_four:
  assumes "length xs = n + 4"
  shows "drop n xs = [xs ! n, xs ! (n + 1), xs ! (n + 2), xs ! (n + 3)]"
  using assms by (auto simp: list_eq_iff_nth_eq less_Suc_eq numeral_eq_Suc)

lemma uploaded_frame:
  "length (buffer_objects (uploaded m s f w)) = length (buffer_objects w) + 4"
  "sharedTextures (uploaded m s f w) = sharedTextures w"
  "texture_objects (uploaded m s f w) = texture_objects w"
  "sharedBuffers (uploaded m s f w) = sharedBuffers (created_buffers m s f w)"
  by (simp_all add: uploaded_def writeBuffer_length writeBuffer_sharedTextures
      writeBuffer_texture_objects writeBuffer_sharedBuffers created_buffers_length
      created_buffers_textures)

lemma uploaded_size:
  "i < length (buffer_objects w) + 4 \<Longrightarrow>
   buf_size (buffer_objects (uploaded m s f w) ! i) =
     buf_size (buffer_objects (created_buffers m s f w) ! i)"
  by (simp add: uploaded_def writeBuffer_size writeBuffer_length created_buffers_length)

lemma uploaded_label:
  "i < length (buffer_objects w) + 4 \<Longrightarrow>
   buf_label (buffer_objects (uploaded m s f w) ! i) =
     buf_label (buffer_objects (created_buffers m s f w) ! i)"
  by (simp add: uploaded_def writeBuffer_label writeBuffer_length created_buffers_length)

lemma uploaded_new_objects:
  "map buf_size (drop (length (buffer_objects w)) (buffer_objects (uploaded m s f w))) =
     [max (byteLength (vertexArray f)) m, max (byteLength (indexArray f)) m,
      max (byteLength (transformArray s)) m, max (byteLength (idArray f)) m]"
  "map buf_label (drop (length (buffer_objects w)) (buffer_objects (uploaded m s f w))) =
     [''vertex'', ''index'', ''transform'', ''object-index'']"
  by (simp_all add: drop_four[OF uploaded_frame(1)] uploaded_size uploaded_label
      created_buffers_sizes created_buffers_labels)

lemma uploaded_getBuffer:
  "getBuffer ''vertex'' (uploaded m s f w) = Inr (length (buffer_objects w))"
  "getBuffer ''index'' (uploaded m s f w) = Inr (length (buffer_objects w) + 1)"
  "getBuffer ''transform'' (uploaded m s f w) = Inr (length (buffer_objects w) + 2)"
  "getBuffer ''object-index'' (uploaded m s f w) = Inr (length (buffer_objects w) + 3)"
  "getBuffer ''camera'' (uploaded m s f w) = getBuffer ''camera'' w"
  by (simp_all add: getBuffer_def uploaded_frame created_buffers_shared update_conv')

lemma uploaded_getTexture: "getTexture l (uploaded m s f w) = getTexture l w"
  by (simp add: getTexture_def uploaded_frame)

text \<open>\<open>createMeshBuffer\<close> without its local bindings.\<close>

lemma createMeshBuffer_unfold:
  "createMeshBuffer m vp (pass, w) =
     (case build_arrays (scene vp) of
        Inl e \<Rightarrow> Inl e
      | Inr (s, f) \<Rightarrow> Inr (pass\<lparr>this_drawParameters := drawParameters f\<rparr>, uploaded m s f w))"
proof (cases "build_arrays (scene vp)")
  case (Inl e)
  then show ?thesis by (simp only: createMeshBuffer_def sum.case)
next
  case (Inr sf)
  obtain s f where sf: "sf = (s, f)" by (cases sf)
  show ?thesis
    unfolding createMeshBuffer_def uploaded_def created_buffers_def Inr sf
    by (simp only: sum.case prod.case Let_def case_prod_beta fst_conv snd_conv
        createBuffer_handle createBuffer_length add_Suc_right add_0_right numeral_3_eq_3
        numeral_2_eq_2 One_nat_def)
qed

lemma multisampled_buffers:
  "buffer_objects (multisampled vp w) = buffer_objects w"
  "sharedBuffers (multisampled vp w) = sharedBuffers w"
  "sharedTextures (multisampled vp w) = sharedTextures w"
  by (simp_all add: multisampled_def texture_destroy_def device_createTexture_def)

lemma device_createTexture_handle:
  "fst (device_createTexture d w) = length (texture_objects w)"
  by (simp add: device_createTexture_def)

lemma device_createTexture_length:
  "length (texture_objects (snd (device_createTexture d w))) = Suc (length (texture_objects w))"
  by (simp add: device_createTexture_def)

text \<open>\<open>render\<close> when the batcher and the nine look-ups succeed.\<close>

lemma render_unfold:
  assumes "createMeshBuffer m vp st = Inr (pass', W)"
    and "getTexture ''color'' W = Inr t1" and "getTexture ''depth'' W = Inr t2"
    and "getTexture ''object-index'' W = Inr t3" and "getTexture ''normal'' W = Inr t4"
    and "getBuffer ''object-index'' W = Inr b1" and "getBuffer ''camera'' W = Inr b2"
    and "getBuffer ''vertex'' W = Inr b3" and "getBuffer ''index'' W = Inr b4"
    and "getBuffer ''transform'' W = Inr b5"
  shows "render m vp st = Inr ((pass', multisampled vp W), draw_loop (this_drawParameters pass') 0)"
  unfolding render_def multisampled_def
  by (simp only: assms and_then_def sum.case prod.case Let_def case_prod_beta fst_conv snd_conv
      device_createTexture_handle device_createTexture_length add_Suc_right add_0_right
      numeral_2_eq_2 One_nat_def)

subsection \<open>The batcher on the scenario\<close>

text \<open>
  C1, evaluated on the scenario. Every iteration of the second loop writes its tuple at
  offset 0 of the table, and the first field is the length of the mesh's vertex array. So
  after the loop row 1 holds the tuple of mesh B with 24 (the floats of its 3 vertices) in
  place of its 3 indices, and row 2 is still all zero; the claim has \<open>{6,2,0,0,0}\<close> and
  \<open>{3,1,6,0,2}\<close>.
\<close>

theorem draw_table_on_scenario:
  "(case build_arrays sceneAAB of
      Inl err \<Rightarrow> False
    | Inr (s, f) \<Rightarrow>
        table_row (drawParameters f) 0 = [24, 1, 6, 0, 2] \<and>
        table_row (drawParameters f) 1 = [0, 0, 0, 0, 0] \<and>
        map (\<lambda>(mesh, g). (length (elementBuffer mesh), count g)) (instances s) = [(6, 2), (3, 1)])"
  by code_simp

text \<open>
  C2, evaluated on the scenario (k = 2 distinct meshes, n = 3 mesh instances). The table has
  2 rows, but its instance counts sum to 1, and in row 1 \<open>firstIndex + indexCount\<close> is
  6 + 24 = 30, beyond the 9 entries of the index array.
\<close>

theorem batching_invariant_on_scenario:
  "(case build_arrays sceneAAB of
      Inl err \<Rightarrow> False
    | Inr (s, f) \<Rightarrow>
        length (drawParameters f) = 5 * 2 \<and>
        length (mesh_instances (entities sceneAAB)) = 3 \<and>
        instanceCount_sum (drawParameters f) = 1 \<and>
        unat (drawParameters f ! 2) + unat (drawParameters f ! 0) = 30 \<and>
        length (indexArray f) = 9 \<and>
        unat (drawParameters f ! 4) + unat (drawParameters f ! 1) = 3 \<and>
        length (idArray f) = 3)"
  by code_simp

text \<open>
  C4, evaluated on the scenario. The transforms are written at the offsets 0, 1 and 2 (the
  ids), not 0, 16 and 32, so they overwrite each other: the 16 floats at offset 16 (id 1)
  and at offset 32 (id 2) are not the transforms of these entities, and neither are the
  first 16.
\<close>

theorem transform_array_on_scenario:
  "(case build_arrays sceneAAB of
      Inl err \<Rightarrow> False
    | Inr (s, f) \<Rightarrow>
        length (transformArray s) = 16 * 3 \<and>
        take 16 (transformArray s) = [1, 2, 3, 0,  0, 0, 0, 3,  0, 0, 0, 0,  3, 0, 0, 0] \<and>
        take 16 (drop (16 * 1) (transformArray s)) = [0, 3] @ replicate 14 0 \<and>
        take 16 (drop (16 * 2) (transformArray s)) = replicate 16 0 \<and>
        take 16 (transformArray s) \<noteq> scaling 1 \<and>
        take 16 (drop (16 * 1) (transformArray s)) \<noteq> scaling 2 \<and>
        take 16 (drop (16 * 2) (transformArray s)) \<noteq> scaling 3)"
  by code_simp

text \<open>
  C5, evaluated on the scenario with a minimum allocation of 32 bytes, on a fresh registry.
  The four buffers are created with the sizes \<open>max(byteLength, 32)\<close>, and the vertex, index
  and id arrays are uploaded to their buffers; but the buffer \<^verbatim>\<open>transform\<close> receives the
  draw-parameter table (10 words), not the transform array (48 words).
\<close>

theorem upload_on_scenario:
  "(case createMeshBuffer 32 viewportAAB (\<lparr>this_drawParameters = []\<rparr>, init) of
      Inl err \<Rightarrow> False
    | Inr (pass, w) \<Rightarrow>
        map (\<lambda>b. (buf_label b, buf_size b, buf_destroyed b)) (buffer_objects w) =
          [(''vertex'', 224, False), (''index'', 36, False), (''transform'', 192, False),
           (''object-index'', 32, False)] \<and>
        sharedBuffers w =
          [(''vertex'', 0), (''index'', 1), (''transform'', 2), (''object-index'', 3)] \<and>
        buf_data (buffer_objects w ! 0) = replicate 32 5 @ replicate 24 6 \<and>
        buf_data (buffer_objects w ! 1) = [0, 1, 2, 2, 3, 0, 0, 1, 2] \<and>
        buf_data (buffer_objects w ! 2) = [24, 1, 6, 0, 2, 0, 0, 0, 0, 0] \<and>
        buf_data (buffer_objects w ! 2) = this_drawParameters pass \<and>
        buf_data (buffer_objects w ! 3) = [0, 0, 2] \<and>
        map_sum id (\<lambda>(s, f). length (transformArray s)) (build_arrays sceneAAB) = Inr 48)"
  unfolding createMeshBuffer_unfold
  by code_simp

subsection \<open>The empty scene\<close>

text \<open>
  C6. For a scene with no entities, in a registry that holds the four textures of the frame
  and the camera buffer, \<open>render\<close> returns without an error and issues no draw call; the
  table stored on the pass has no row; the batcher has created exactly four new buffers,
  labelled \<^verbatim>\<open>vertex\<close>, \<^verbatim>\<open>index\<close>, \<^verbatim>\<open>transform\<close> and \<^verbatim>\<open>object-index\<close>, each
  of the size \<open>minBuffersize\<close> (so none of size zero when \<open>minBuffersize\<close> is positive),
  and they are the buffers registered under these labels.
\<close>

theorem empty_scene_renders:
  assumes "entities (scene viewport) = []"
    and "getTexture ''color'' w = Inr t1" and "getTexture ''depth'' w = Inr t2"
    and "getTexture ''object-index'' w = Inr t3" and "getTexture ''normal'' w = Inr t4"
    and "getBuffer ''camera'' w = Inr c"
  shows "(case render minBuffersize viewport (pass, w) of
            Inl err \<Rightarrow> False
          | Inr ((pass', w'), draws) \<Rightarrow>
              draws = [] \<and> this_drawParameters pass' = [] \<and>
              map buf_label (drop (length (buffer_objects w)) (buffer_objects w')) =
                [''vertex'', ''index'', ''transform'', ''object-index''] \<and>
              map buf_size (drop (length (buffer_objects w)) (buffer_objects w')) =
                [minBuffersize, minBuffersize, minBuffersize, minBuffersize] \<and>
              (0 < minBuffersize \<longrightarrow>
                 0 \<notin> set (map buf_size (drop (length (buffer_objects w)) (buffer_objects w')))) \<and>
              getBuffer ''vertex'' w' = Inr (length (buffer_objects w)) \<and>
              getBuffer ''index'' w' = Inr (length (buffer_objects w) + 1) \<and>
              getBuffer ''transform'' w' = Inr (length (buffer_objects w) + 2) \<and>
              getBuffer ''object-index'' w' = Inr (length (buffer_objects w) + 3))"
proof -
  define s0 where "s0 = \<lparr>vertexSize = 0, indexSize = 0, transformArray = [], instances = []\<rparr>"
  define f0 where "f0 = \<lparr>vertexArray = [], indexArray = [], idArray = [], drawParameters = [],
                          vertexOffset = 0, indexOffset = 0, objectOffset = 0\<rparr>"
  define W where "W = uploaded minBuffersize s0 f0 w"
  define pass' where "pass' = pass\<lparr>this_drawParameters := []\<rparr>"
  have b: "build_arrays (scene viewport) = Inr (s0, f0)"
    by (simp add: build_arrays_def assms(1) s0_def f0_def)
  have c: "createMeshBuffer minBuffersize viewport (pass, w) = Inr (pass', W)"
    by (simp only: createMeshBuffer_unfold b sum.case prod.case W_def pass'_def)
      (simp add: f0_def)
  have r: "render minBuffersize viewport (pass, w) =
      Inr ((pass', multisampled viewport W), draw_loop (this_drawParameters pass') 0)"
    by (rule render_unfold[OF c])
      (simp_all only: W_def uploaded_getTexture uploaded_getBuffer assms)
  have d: "draw_loop (this_drawParameters pass') 0 = []"
    by (subst draw_loop.simps) (simp add: pass'_def)
  have sizes: "map buf_size (drop (length (buffer_objects w)) (buffer_objects W)) =
      [minBuffersize, minBuffersize, minBuffersize, minBuffersize]"
    unfolding W_def by (simp add: uploaded_new_objects s0_def f0_def byteLength_def)
  have labels: "map buf_label (drop (length (buffer_objects w)) (buffer_objects W)) =
      [''vertex'', ''index'', ''transform'', ''object-index'']"
    unfolding W_def by (simp add: uploaded_new_objects)
  have g: "getBuffer l (multisampled viewport W) = getBuffer l W" for l
    by (simp add: getBuffer_def multisampled_buffers)
  show ?thesis
    unfolding r d
    by (simp only: sum.case prod.case multisampled_buffers g sizes labels)
      (simp add: W_def uploaded_getBuffer pass'_def)
qed

text \<open>
  The instance of C6 for the empty viewport, a minimum allocation of 32 bytes and the frame
  registry, whose only buffer is the camera buffer (handle 0).
\<close>

theorem empty_scene_renders_witness:
  "(case render 32 empty_viewport (\<lparr>this_drawParameters = [7]\<rparr>, frame_registry) of
      Inl err \<Rightarrow> False
    | Inr ((pass', w'), draws) \<Rightarrow>
        draws = [] \<and> this_drawParameters pass' = [] \<and>
        map buf_label (drop 1 (buffer_objects w')) =
          [''vertex'', ''index'', ''transform'', ''object-index''] \<and>
        map buf_size (drop 1 (buffer_objects w')) = [32, 32, 32, 32] \<and>
        getBuffer ''vertex'' w' = Inr 1 \<and> getBuffer ''index'' w' = Inr 2 \<and>
        getBuffer ''transform'' w' = Inr 3 \<and> getBuffer ''object-index'' w' = Inr 4)"
proof -
  have e: "entities (scene empty_viewport) = []" by code_simp
  have t: "getTexture ''color'' frame_registry = Inr 0"
    "getTexture ''depth'' frame_registry = Inr 1"
    "getTexture ''object-index'' frame_registry = Inr 2"
    "getTexture ''normal'' frame_registry = Inr 3"
    by code_simp+
  have c: "getBuffer ''camera'' frame_registry = Inr 0" by code_simp
  have n: "length (buffer_objects frame_registry) = 1" by code_simp
  show ?thesis
    using empty_scene_renders[OF e t c, of 32 "\<lparr>this_drawParameters = [7]\<rparr>"]
    by (simp add: n split: sum.splits prod.splits)
qed

subsection \<open>The instance groups built by the scan\<close>

lemma first_encounters_snoc:
  "first_encounters seen (xs @ [(i, m)]) =
     first_encounters seen xs @
       (if mesh_ref m \<in> set seen \<union> (\<lambda>e. mesh_ref (snd e)) ` set xs then [] else [(i, m)])"
  by (induction seen xs rule: first_encounters.induct) auto

lemma first_encounters_refs:
  "(\<lambda>e. mesh_ref (snd e)) ` set (first_encounters seen xs) = (\<lambda>e. mesh_ref (snd e)) ` set xs - set seen"
  by (induction seen xs rule: first_encounters.induct) auto

lemma first_encounters_subset: "set (first_encounters seen xs) \<subseteq> set xs"
  by (induction seen xs rule: first_encounters.induct) auto

lemma first_encounters_distinct:
  "distinct (map (\<lambda>e. mesh_ref (snd e)) (first_encounters seen xs))"
proof (induction seen xs rule: first_encounters.induct)
  case (1 seen)
  then show ?case by simp
next
  case (2 seen i mesh rest)
  have "mesh_ref mesh \<notin> (\<lambda>e. mesh_ref (snd e)) ` set (first_encounters (mesh_ref mesh # seen) rest)"
    using first_encounters_refs[of "mesh_ref mesh # seen" rest] by auto
  with 2 show ?case by auto
qed

lemma instance_count_snoc:
  "instance_count (ms @ [(i, m)]) r = instance_count ms r + (if mesh_ref m = r then 1 else 0)"
  by (simp add: instance_count_def)

lemma instance_count_pos: "(i, m) \<in> set ms \<Longrightarrow> 0 < instance_count ms (mesh_ref m)"
  unfolding instance_count_def by (auto simp: filter_empty_conv)

lemma instance_count_zero:
  "r \<notin> (\<lambda>e. mesh_ref (snd e)) ` set ms \<Longrightarrow> instance_count ms r = 0"
  unfolding instance_count_def by (force simp: filter_empty_conv)

lemma instances_get_groups:
  "instances_get (map (group_of ms) ys) m = None \<longleftrightarrow>
     mesh_ref m \<notin> (\<lambda>e. mesh_ref (snd e)) ` set ys"
  by (induction ys) (auto simp: group_of_def)

lemma instances_increment_groups:
  assumes "distinct (map (\<lambda>e. mesh_ref (snd e)) ys)"
  shows "instances_increment (map (group_of ms) ys) m =
           map (\<lambda>y. if mesh_ref (snd y) = mesh_ref m
                     then (snd y, \<lparr>count = instance_count ms (mesh_ref (snd y)) + 1,
                                   ids = [fst y]\<rparr>)
                     else group_of ms y) ys"
  using assms
proof (induction ys)
  case Nil
  then show ?case by simp
next
  case (Cons y ys)
  show ?case
  proof (cases "mesh_ref (snd y) = mesh_ref m")
    case True
    then have "\<forall>z \<in> set ys. mesh_ref (snd z) \<noteq> mesh_ref m"
      using Cons.prems by force
    then have "map (group_of ms) ys =
        map (\<lambda>y. if mesh_ref (snd y) = mesh_ref m
                  then (snd y, \<lparr>count = instance_count ms (mesh_ref (snd y)) + 1,
                                ids = [fst y]\<rparr>)
                  else group_of ms y) ys"
      by (intro map_cong) auto
    then show ?thesis using True by (simp add: group_of_def)
  next
    case False
    then show ?thesis using Cons by (simp add: group_of_def)
  qed
qed

lemma groups_of_snoc_new:
  assumes "mesh_ref m \<notin> (\<lambda>e. mesh_ref (snd e)) ` set ms"
  shows "groups_of (ms @ [(i, m)]) = groups_of ms @ [(m, \<lparr>count = 1, ids = [i]\<rparr>)]"
proof -
  have "group_of (ms @ [(i, m)]) y = group_of ms y" if "y \<in> set (first_encounters [] ms)" for y
  proof -
    have "y \<in> set ms" using that first_encounters_subset by blast
    then have "mesh_ref (snd y) \<noteq> mesh_ref m" using assms by force
    then show ?thesis by (cases y) (simp add: group_of_def instance_count_snoc)
  qed
  then have "map (group_of (ms @ [(i, m)])) (first_encounters [] ms) =
      map (group_of ms) (first_encounters [] ms)"
    by (intro map_cong) auto
  moreover have "group_of (ms @ [(i, m)]) (i, m) = (m, \<lparr>count = 1, ids = [i]\<rparr>)"
    using instance_count_zero[OF assms] by (simp add: group_of_def instance_count_snoc)
  ultimately show ?thesis
    using assms by (simp add: groups_of_def first_encounters_snoc)
qed

lemma groups_of_snoc_old:
  assumes "mesh_ref m \<in> (\<lambda>e. mesh_ref (snd e)) ` set ms"
  shows "groups_of (ms @ [(i, m)]) = instances_increment (groups_of ms) m"
proof -
  have "map (group_of (ms @ [(i, m)])) (first_encounters [] ms) =
      map (\<lambda>y. if mesh_ref (snd y) = mesh_ref m
                then (snd y, \<lparr>count = instance_count ms (mesh_ref (snd y)) + 1, ids = [fst y]\<rparr>)
                else group_of ms y) (first_encounters [] ms)"
    by (intro map_cong) (auto simp: group_of_def instance_count_snoc)
  then show ?thesis
    using assms
    by (simp add: groups_of_def first_encounters_snoc
        instances_increment_groups[OF first_encounters_distinct])
qed

lemma scan_entity_groups:
  assumes "scan_entity (MeshInstance i m t) s = Inr s'" and "instances s = groups_of ms"
  shows "instances s' = groups_of (ms @ [(i, m)])"
proof (cases "instances_get (instances s) m")
  case None
  then have "mesh_ref m \<notin> (\<lambda>e. mesh_ref (snd e)) ` set ms"
    using assms(2) instances_get_groups[of ms "first_encounters [] ms" m]
      first_encounters_refs[of "[]" ms]
    by (simp add: groups_of_def)
  then show ?thesis
    using assms None by (auto simp: groups_of_snoc_new split: sum.splits)
next
  case (Some g)
  then have "mesh_ref m \<in> (\<lambda>e. mesh_ref (snd e)) ` set ms"
    using assms(2) instances_get_groups[of ms "first_encounters [] ms" m]
      first_encounters_refs[of "[]" ms]
    by (simp add: groups_of_def)
  then show ?thesis
    using assms Some by (auto simp: groups_of_snoc_old split: sum.splits)
qed

lemma scan_entities_groups:
  assumes "scan_entities es s = Inr s'" and "instances s = groups_of pre"
  shows "instances s' = groups_of (pre @ mesh_instances es)"
  using assms
proof (induction es arbitrary: s pre rule: mesh_instances.induct)
  case 1
  then show ?case by simp
next
  case (2 name i mesh t rest)
  from "2.prems"(1) obtain s1 where
    s1: "scan_entity (MeshInstance i mesh t) s = Inr s1" and r: "scan_entities rest s1 = Inr s'"
    by (auto split: sum.splits)
  from "2.IH"[OF r scan_entity_groups[OF s1 "2.prems"(2)]] show ?case by simp
next
  case (3 name i rest)
  then show ?case by simp
qed

lemma scan_entities_length:
  "scan_entities es s = Inr s' \<Longrightarrow> length (transformArray s') = length (transformArray s)"
proof (induction es arbitrary: s rule: mesh_instances.induct)
  case 1
  then show ?case by simp
next
  case (2 name i mesh t rest)
  from "2.prems" obtain s1 where
    s1: "scan_entity (MeshInstance i mesh t) s = Inr s1" and r: "scan_entities rest s1 = Inr s'"
    by (auto split: sum.splits)
  have "length (transformArray s1) = length (transformArray s)"
    using s1 by (auto simp: typed_set_def split: sum.splits option.splits if_splits)
  with "2.IH"[OF r] show ?case by simp
next
  case (3 name i rest)
  then show ?case by simp
qed

subsection \<open>The id array filled by the second loop\<close>

lemma fill_group_ids:
  assumes "fill_group (mesh, g) f = Inr f'"
  shows "idArray f' = take (objectOffset f) (idArray f) @ map of_nat (ids g) @
           drop (objectOffset f + length (ids g)) (idArray f)"
    and "objectOffset f + length (ids g) \<le> length (idArray f)"
    and "objectOffset f' = objectOffset f + count g"
  using assms by (auto simp: typed_set_def split: sum.splits if_splits)

lemma fill_groups_ids:
  assumes "fill_groups G f = Inr f'"
    and "\<forall>e \<in> set G. length (ids (snd e)) \<le> count (snd e)"
  shows "length (idArray f') = length (idArray f) \<and>
         (\<forall>p < objectOffset f. idArray f' ! p = idArray f ! p) \<and>
         (\<forall>j < length G. \<forall>k < length (ids (snd (G ! j))).
            idArray f' ! (objectOffset f + sum_list (map (count \<circ> snd) (take j G)) + k) =
              of_nat (ids (snd (G ! j)) ! k))"
  using assms
proof (induction G arbitrary: f)
  case Nil
  then show ?case by simp
next
  case (Cons e G)
  obtain mesh g where e: "e = (mesh, g)" by (cases e)
  from Cons.prems(1) obtain f1 where
    f1: "fill_group (mesh, g) f = Inr f1" and r: "fill_groups G f1 = Inr f'"
    by (auto simp: e split: sum.splits)
  note fg = fill_group_ids[OF f1]
  have le: "length (ids g) \<le> count g" using Cons.prems(2) by (simp add: e)
  have ih: "length (idArray f') = length (idArray f1) \<and>
         (\<forall>p < objectOffset f1. idArray f' ! p = idArray f1 ! p) \<and>
         (\<forall>j < length G. \<forall>k < length (ids (snd (G ! j))).
            idArray f' ! (objectOffset f1 + sum_list (map (count \<circ> snd) (take j G)) + k) =
              of_nat (ids (snd (G ! j)) ! k))"
    by (rule Cons.IH[OF r]) (use Cons.prems(2) in simp)
  have len1: "length (idArray f1) = length (idArray f)"
    using fg(1,2) by simp
  have low: "idArray f1 ! p = idArray f ! p" if "p < objectOffset f" for p
    using that fg(2) by (simp add: fg(1) nth_append)
  have mid: "idArray f1 ! (objectOffset f + k) = of_nat (ids g ! k)" if "k < length (ids g)" for k
    using that fg(2) by (simp add: fg(1) nth_append)
  have a: "length (idArray f') = length (idArray f)" using ih len1 by simp
  have b: "idArray f' ! p = idArray f ! p" if "p < objectOffset f" for p
    using that ih low by (simp add: fg(3))
  have c: "idArray f' ! (objectOffset f + sum_list (map (count \<circ> snd) (take j (e # G))) + k) =
      of_nat (ids (snd ((e # G) ! j)) ! k)"
    if j: "j < length (e # G)" and k: "k < length (ids (snd ((e # G) ! j)))" for j k
  proof (cases j)
    case 0
    then have k': "k < length (ids g)" using k by (simp add: e)
    then have "objectOffset f + k < objectOffset f1" using le by (simp add: fg(3))
    then have "idArray f' ! (objectOffset f + k) = idArray f1 ! (objectOffset f + k)"
      using ih by blast
    then show ?thesis using 0 mid[OF k'] by (simp add: e)
  next
    case (Suc j')
    then have "j' < length G" and "k < length (ids (snd (G ! j')))" using j k by simp_all
    then have "idArray f' ! (objectOffset f1 + sum_list (map (count \<circ> snd) (take j' G)) + k) =
        of_nat (ids (snd (G ! j')) ! k)"
      using ih by blast
    then show ?thesis using Suc by (simp add: e fg(3) add.assoc)
  qed
  show ?case using a b c by blast
qed

lemma groups_of_ids_le: "\<forall>e \<in> set (groups_of ms). length (ids (snd e)) \<le> count (snd e)"
proof
  fix e assume "e \<in> set (groups_of ms)"
  then obtain y where y: "y \<in> set (first_encounters [] ms)" and e: "e = group_of ms y"
    by (auto simp: groups_of_def)
  have "y \<in> set ms" using y first_encounters_subset by blast
  then have "0 < instance_count ms (mesh_ref (snd y))"
    using instance_count_pos[of "fst y" "snd y" ms] by simp
  then show "length (ids (snd e)) \<le> count (snd e)" by (simp add: e group_of_def)
qed

lemma fill_groups_first_ids:
  assumes "fill_groups (groups_of ms) f = Inr f'" and "objectOffset f = 0"
    and "j < length (first_encounters [] ms)"
  shows "idArray f' ! instance_offset ms j = of_nat (fst (first_encounters [] ms ! j))"
proof -
  let ?fe = "first_encounters [] ms"
  note le = groups_of_ids_le[of ms]
  have j': "j < length (groups_of ms)" using assms(3) by (simp add: groups_of_def)
  have g: "groups_of ms ! j = group_of ms (?fe ! j)"
    using assms(3) by (simp add: groups_of_def)
  have off: "sum_list (map (count \<circ> snd) (take j (groups_of ms))) = instance_offset ms j"
    by (simp add: groups_of_def instance_offset_def take_map comp_def group_of_def)
  have k0: "0 < length (ids (snd (groups_of ms ! j)))" by (simp add: g group_of_def)
  from fill_groups_ids[OF assms(1) le]
  have "\<forall>j < length (groups_of ms). \<forall>k < length (ids (snd (groups_of ms ! j))).
          idArray f' ! (objectOffset f + sum_list (map (count \<circ> snd) (take j (groups_of ms))) + k) =
            of_nat (ids (snd (groups_of ms ! j)) ! k)"
    by blast
  with j' k0
  have "idArray f' ! (objectOffset f + sum_list (map (count \<circ> snd) (take j (groups_of ms))) + 0) =
      of_nat (ids (snd (groups_of ms ! j)) ! 0)"
    by blast
  then show ?thesis by (simp add: assms(2) off g group_of_def)
qed

subsection \<open>When the batcher completes\<close>

lemma scan_entity_length:
  "scan_entity e s = Inr s' \<Longrightarrow> length (transformArray s') = length (transformArray s)"
  by (cases e) (auto simp: typed_set_def split: sum.splits option.splits if_splits)

lemma scan_entity_ok:
  assumes "case e of MeshInstance i mesh t \<Rightarrow> i + length t \<le> n | OtherEntity i \<Rightarrow> True"
    and "length (transformArray s) = n"
  shows "\<exists>s'. scan_entity e s = Inr s'"
  using assms by (cases e) (auto simp: typed_set_def split: option.splits)

lemma scan_entities_ok:
  assumes "list_all (\<lambda>e. case snd e of
                            MeshInstance i mesh t \<Rightarrow> i + length t \<le> n
                          | OtherEntity i \<Rightarrow> True) es"
    and "length (transformArray s) = n"
  shows "\<exists>s'. scan_entities es s = Inr s'"
  using assms
proof (induction es arbitrary: s)
  case Nil
  then show ?case by simp
next
  case (Cons e es)
  obtain name object where e: "e = (name, object)" by (cases e)
  have "case object of MeshInstance i mesh t \<Rightarrow> i + length t \<le> n | OtherEntity i \<Rightarrow> True"
    using Cons.prems(1) by (simp add: e)
  from scan_entity_ok[OF this Cons.prems(2)] obtain s1 where
    s1: "scan_entity object s = Inr s1" by blast
  have "length (transformArray s1) = n"
    using scan_entity_length[OF s1] Cons.prems(2) by simp
  with Cons.prems(1) have "\<exists>s'. scan_entities es s1 = Inr s'"
    by (intro Cons.IH) simp_all
  then show ?case by (simp add: e s1)
qed

text \<open>The sizes summed by the first loop are those of the groups, and the counts add up.\<close>

lemma instances_increment_keys: "map fst (instances_increment G m) = map fst G"
  by (induction G m rule: instances_increment.induct) auto

lemma instances_increment_count:
  "instances_get G m \<noteq> None \<Longrightarrow>
   sum_list (map (\<lambda>e. count (snd e)) (instances_increment G m)) =
     Suc (sum_list (map (\<lambda>e. count (snd e)) G))"
  by (induction G m rule: instances_increment.induct) auto

lemma sum_keys_cong:
  "map fst G = map fst G' \<Longrightarrow>
   sum_list (map (\<lambda>e. h (fst e)) G) = sum_list (map (\<lambda>e. h (fst e)) G')"
proof -
  assume "map fst G = map fst G'"
  then have "map h (map fst G) = map h (map fst G')" by simp
  then show ?thesis by (simp add: comp_def)
qed

lemma scan_entity_sizes:
  assumes "scan_entity e s = Inr s'"
    and "vertexSize s = sum_list (map (\<lambda>e. length (vertexBuffer (fst e))) (instances s))"
    and "indexSize s = sum_list (map (\<lambda>e. length (elementBuffer (fst e))) (instances s))"
    and "sum_list (map (\<lambda>e. count (snd e)) (instances s)) \<le> n"
  shows "vertexSize s' = sum_list (map (\<lambda>e. length (vertexBuffer (fst e))) (instances s')) \<and>
         indexSize s' = sum_list (map (\<lambda>e. length (elementBuffer (fst e))) (instances s')) \<and>
         sum_list (map (\<lambda>e. count (snd e)) (instances s')) \<le> Suc n"
proof (cases e)
  case (OtherEntity i)
  then show ?thesis using assms by auto
next
  case (MeshInstance i mesh t)
  show ?thesis
  proof (cases "instances_get (instances s) mesh")
    case None
    then show ?thesis
      using assms by (auto simp: MeshInstance split: sum.splits)
  next
    case (Some g)
    then have inst: "instances s' = instances_increment (instances s) mesh"
      and vs: "vertexSize s' = vertexSize s" and ix: "indexSize s' = indexSize s"
      using assms(1) by (auto simp: MeshInstance split: sum.splits)
    have k: "map fst (instances s') = map fst (instances s)"
      by (simp add: inst instances_increment_keys)
    have c: "sum_list (map (\<lambda>e. count (snd e)) (instances s')) =
        Suc (sum_list (map (\<lambda>e. count (snd e)) (instances s)))"
      using Some by (simp add: inst instances_increment_count)
    show ?thesis
      using assms(2,3,4) sum_keys_cong[OF k, of "\<lambda>m. length (vertexBuffer m)"]
        sum_keys_cong[OF k, of "\<lambda>m. length (elementBuffer m)"]
      by (simp add: vs ix c)
  qed
qed

lemma scan_entities_sizes:
  assumes "scan_entities es s = Inr s'"
    and "vertexSize s = sum_list (map (\<lambda>e. length (vertexBuffer (fst e))) (instances s))"
    and "indexSize s = sum_list (map (\<lambda>e. length (elementBuffer (fst e))) (instances s))"
    and "sum_list (map (\<lambda>e. count (snd e)) (instances s)) \<le> n"
  shows "vertexSize s' = sum_list (map (\<lambda>e. length (vertexBuffer (fst e))) (instances s')) \<and>
         indexSize s' = sum_list (map (\<lambda>e. length (elementBuffer (fst e))) (instances s')) \<and>
         sum_list (map (\<lambda>e. count (snd e)) (instances s')) \<le> n + length es"
  using assms
proof (induction es arbitrary: s n)
  case Nil
  then show ?case by simp
next
  case (Cons e es)
  obtain name object where e: "e = (name, object)" by (cases e)
  from Cons.prems(1) obtain s1 where
    s1: "scan_entity object s = Inr s1" and r: "scan_entities es s1 = Inr s'"
    by (auto simp: e split: sum.splits)
  note st = scan_entity_sizes[OF s1 Cons.prems(2,3,4)]
  from Cons.IH[OF r, of "Suc n"] st show ?case by simp
qed

text \<open>The second loop never raises on arrays of the sizes the first loop computed.\<close>

lemma fill_group_ok:
  assumes "vertexOffset f + length (vertexBuffer mesh) \<le> length (vertexArray f)"
    and "indexOffset f + length (elementBuffer mesh) \<le> length (indexArray f)"
    and "objectOffset f + length (ids g) \<le> length (idArray f)"
    and "5 \<le> length (drawParameters f)"
  shows "\<exists>f1. fill_group (mesh, g) f = Inr f1 \<and>
           length (vertexArray f1) = length (vertexArray f) \<and>
           length (indexArray f1) = length (indexArray f) \<and>
           length (idArray f1) = length (idArray f) \<and>
           length (drawParameters f1) = length (drawParameters f) \<and>
           vertexOffset f1 = vertexOffset f + length (vertexBuffer mesh) \<and>
           indexOffset f1 = indexOffset f + length (elementBuffer mesh) \<and>
           objectOffset f1 = objectOffset f + count g"
  using assms by (simp add: typed_set_def)

lemma fill_groups_ok:
  assumes "vertexOffset f + sum_list (map (\<lambda>e. length (vertexBuffer (fst e))) G)
             \<le> length (vertexArray f)"
    and "indexOffset f + sum_list (map (\<lambda>e. length (elementBuffer (fst e))) G)
             \<le> length (indexArray f)"
    and "objectOffset f + sum_list (map (\<lambda>e. count (snd e)) G) \<le> length (idArray f)"
    and "\<forall>e \<in> set G. length (ids (snd e)) \<le> count (snd e)"
    and "G \<noteq> [] \<longrightarrow> 5 \<le> length (drawParameters f)"
  shows "\<exists>f'. fill_groups G f = Inr f'"
  using assms
proof (induction G arbitrary: f)
  case Nil
  then show ?case by simp
next
  case (Cons e G)
  obtain mesh g where e: "e = (mesh, g)" by (cases e)
  have le: "length (ids g) \<le> count g" using Cons.prems(4) by (simp add: e)
  have "\<exists>f1. fill_group (mesh, g) f = Inr f1 \<and>
           length (vertexArray f1) = length (vertexArray f) \<and>
           length (indexArray f1) = length (indexArray f) \<and>
           length (idArray f1) = length (idArray f) \<and>
           length (drawParameters f1) = length (drawParameters f) \<and>
           vertexOffset f1 = vertexOffset f + length (vertexBuffer mesh) \<and>
           indexOffset f1 = indexOffset f + length (elementBuffer mesh) \<and>
           objectOffset f1 = objectOffset f + count g"
    by (rule fill_group_ok) (use Cons.prems le in \<open>simp_all add: e\<close>)
  then obtain f1 where step: "fill_group (mesh, g) f = Inr f1"
    and len: "length (vertexArray f1) = length (vertexArray f)"
      "length (indexArray f1) = length (indexArray f)"
      "length (idArray f1) = length (idArray f)"
      "length (drawParameters f1) = length (drawParameters f)"
    and off: "vertexOffset f1 = vertexOffset f + length (vertexBuffer mesh)"
      "indexOffset f1 = indexOffset f + length (elementBuffer mesh)"
      "objectOffset f1 = objectOffset f + count g"
    by blast
  have "\<exists>f'. fill_groups G f1 = Inr f'"
  proof (rule Cons.IH)
    show "vertexOffset f1 + sum_list (map (\<lambda>e. length (vertexBuffer (fst e))) G)
        \<le> length (vertexArray f1)"
      using Cons.prems(1) by (simp add: len off e)
    show "indexOffset f1 + sum_list (map (\<lambda>e. length (elementBuffer (fst e))) G)
        \<le> length (indexArray f1)"
      using Cons.prems(2) by (simp add: len off e)
    show "objectOffset f1 + sum_list (map (\<lambda>e. count (snd e)) G) \<le> length (idArray f1)"
      using Cons.prems(3) by (simp add: len off e)
    show "\<forall>e \<in> set G. length (ids (snd e)) \<le> count (snd e)"
      using Cons.prems(4) by simp
    show "G \<noteq> [] \<longrightarrow> 5 \<le> length (drawParameters f1)"
      using Cons.prems(5) by (simp add: len)
  qed
  then show ?case by (simp only: e fill_groups.simps step sum.case)
qed

lemma build_arrays_completes:
  assumes "transforms_fit sc"
  shows "\<exists>s f. build_arrays sc = Inr (s, f)"
proof -
  let ?s0 = "\<lparr>vertexSize = 0, indexSize = 0,
              transformArray = replicate (length (entities sc) * 16) 0, instances = []\<rparr>"
  have "length (transformArray ?s0) = length (entities sc) * 16" by simp
  from scan_entities_ok[OF assms[unfolded transforms_fit_def] this]
  obtain s where scan: "scan_entities (entities sc) ?s0 = Inr s"
    by blast
  let ?f0 = "\<lparr>vertexArray = replicate (vertexSize s) 0, indexArray = replicate (indexSize s) 0,
              idArray = replicate (length (entities sc)) 0,
              drawParameters = replicate (length (instances s) * 5) 0,
              vertexOffset = 0, indexOffset = 0, objectOffset = 0\<rparr>"
  have sz: "vertexSize s = sum_list (map (\<lambda>e. length (vertexBuffer (fst e))) (instances s)) \<and>
      indexSize s = sum_list (map (\<lambda>e. length (elementBuffer (fst e))) (instances s)) \<and>
      sum_list (map (\<lambda>e. count (snd e)) (instances s)) \<le> 0 + length (entities sc)"
    by (rule scan_entities_sizes[OF scan]) simp_all
  have "instances ?s0 = groups_of []" by (simp add: groups_of_def)
  from scan_entities_groups[OF scan this]
  have g: "instances s = groups_of (mesh_instances (entities sc))" by simp
  have "\<exists>f'. fill_groups (instances s) ?f0 = Inr f'"
  proof (rule fill_groups_ok)
    show "\<forall>e \<in> set (instances s). length (ids (snd e)) \<le> count (snd e)"
      unfolding g by (rule groups_of_ids_le)
    show "instances s \<noteq> [] \<longrightarrow> 5 \<le> length (drawParameters ?f0)"
      by (cases "instances s") simp_all
  qed (use sz in simp_all)
  then show ?thesis by (auto simp: build_arrays_def scan)
qed

text \<open>Ids below the number of entities and transforms of 16 floats always fit.\<close>

lemma dense_scene_fits:
  assumes "list_all (\<lambda>e. case snd e of
                            MeshInstance i mesh t \<Rightarrow> i < length (entities sc) \<and> length t = 16
                          | OtherEntity i \<Rightarrow> True) (entities sc)"
  shows "transforms_fit sc"
  unfolding transforms_fit_def list_all_iff
proof
  fix e assume e: "e \<in> set (entities sc)"
  show "case snd e of
          MeshInstance i mesh t \<Rightarrow> i + length t \<le> length (entities sc) * 16
        | OtherEntity i \<Rightarrow> True"
  proof (cases "snd e")
    case (MeshInstance i mesh t)
    with assms e have "i < length (entities sc)" and "length t = 16"
      by (auto simp: list_all_iff)
    then show ?thesis by (simp add: MeshInstance)
  next
    case (OtherEntity i)
    then show ?thesis by simp
  qed
qed

subsection \<open>The object-index array\<close>

text \<open>
  C3 as stated fails on the scene with the two instances of A, the instance of B and a light
  (ids 0, 1, 2, 3): the id array is \<open>[0, 0, 2, 0]\<close>. Its length is the number of entities
  (4), not the number of mesh instances (3), and it is not the concatenation of the id lists
  (\<open>[0, 1, 2]\<close>), with or without the padding.
\<close>

theorem object_index_array_counterexample:
  "(case build_arrays sceneAABL of
      Inl err \<Rightarrow> False
    | Inr (s, f) \<Rightarrow>
        idArray f = [0, 0, 2, 0] \<and>
        map fst (mesh_instances (entities sceneAABL)) = [0, 1, 2] \<and>
        length (idArray f) \<noteq> length (mesh_instances (entities sceneAABL)) \<and>
        idArray f \<noteq> map (of_nat \<circ> fst) (mesh_instances (entities sceneAABL)))"
  by code_simp

text \<open>
  C3 as amended. The batcher raises only on a scene with a transform that does not fit.
  Otherwise the id array has one entry per entity of the scene, and for the distinct meshes
  in first-encounter order, the entries at their running instance offsets are the ids (as
  32-bit values) of their first-encountered instances.
\<close>

theorem object_index_array_first_ids:
  "(case build_arrays sc of
      Inl err \<Rightarrow> \<not> transforms_fit sc
    | Inr (s, f) \<Rightarrow>
        length (idArray f) = length (entities sc) \<and>
        map (\<lambda>j. idArray f ! instance_offset (mesh_instances (entities sc)) j)
            [0..<length (first_encounters [] (mesh_instances (entities sc)))] =
          map (of_nat \<circ> fst) (first_encounters [] (mesh_instances (entities sc))))"
proof (cases "build_arrays sc")
  case (Inl err)
  then show ?thesis using build_arrays_completes[of sc] by auto
next
  case (Inr sf)
  obtain s f where sf: "sf = (s, f)" by (cases sf)
  let ?ms = "mesh_instances (entities sc)"
  let ?s0 = "\<lparr>vertexSize = 0, indexSize = 0,
              transformArray = replicate (length (entities sc) * 16) 0, instances = []\<rparr>"
  let ?f0 = "\<lparr>vertexArray = replicate (vertexSize s) 0, indexArray = replicate (indexSize s) 0,
              idArray = replicate (length (entities sc)) 0,
              drawParameters = replicate (length (instances s) * 5) 0,
              vertexOffset = 0, indexOffset = 0, objectOffset = 0\<rparr>"
  from Inr have scan: "scan_entities (entities sc) ?s0 = Inr s"
    and fill: "fill_groups (instances s) ?f0 = Inr f"
    by (auto simp: build_arrays_def sf split: sum.splits)
  have "instances ?s0 = groups_of []" by (simp add: groups_of_def)
  from scan_entities_groups[OF scan this] have g: "instances s = groups_of ?ms" by simp
  have fill': "fill_groups (groups_of ?ms) ?f0 = Inr f" using fill by (simp only: g)
  note le = groups_of_ids_le[of ?ms]
  have len: "length (idArray f) = length (entities sc)"
    using fill_groups_ids[OF fill' le] by simp
  have ids: "map (\<lambda>j. idArray f ! instance_offset ?ms j) [0..<length (first_encounters [] ?ms)] =
      map (of_nat \<circ> fst) (first_encounters [] ?ms)"
    by (rule nth_equalityI) (simp_all add: fill_groups_first_ids[OF fill'])
  show ?thesis using len ids by (simp add: Inr sf)
qed

text \<open>
  The instance of the amended C3 for the scenario: three entries, the id of the first A
  instance at offset 0 and the id of the B instance at offset 2.
\<close>

theorem object_index_array_first_ids_witness:
  "(case build_arrays sceneAAB of
      Inl err \<Rightarrow> False
    | Inr (s, f) \<Rightarrow>
        length (idArray f) = 3 \<and>
        map (\<lambda>j. instance_offset (mesh_instances (entities sceneAAB)) j) [0..<2] = [0, 2] \<and>
        idArray f ! 0 = 0 \<and> idArray f ! 2 = 2 \<and> transforms_fit sceneAAB)"
  using object_index_array_first_ids[of sceneAAB]
  by code_simp

end
